theory Spec2Isabelle
  imports Main "HOL-Library.Multiset" "HOL-Library.Word"
begin

section \<open>Errors\<close>

text \<open>
  The exceptions the data loader can raise, as values.  The class of the Python exception is
  the constructor; its argument tells the raise sites apart.
\<close>

datatype value_error =
  Fold_index int int
    \<comment> \<open>\<open>'Fold index has to be [0, n_folds). Received index {} for {} folds'\<close>, with the
        two formatted numbers\<close>
| Number_sections
    \<comment> \<open>numpy, \<open>array_split\<close>: \<open>'number sections must be larger than 0.'\<close>\<close>
| Need_one_array
    \<comment> \<open>numpy, \<open>concatenate\<close>: \<open>'need at least one array to concatenate'\<close>\<close>
| Out_of_int64
    \<comment> \<open>\<open>tf.data\<close>, \<open>repeat\<close>: the count does not fit a signed 64-bit integer\<close>

datatype tf_error =
  Feature_missing string
    \<comment> \<open>\<open>parse_single_example\<close>: a required feature is absent or has the wrong kind or length\<close>
| Reshape_mismatch nat "nat list"
    \<comment> \<open>\<open>reshape\<close>: the tensor has that many values, the requested shape needs another number\<close>

datatype error =
  ValueError value_error
| AssertionError string
| AttributeError string
| InvalidArgumentError tf_error

section \<open>The fold splitter\<close>

subsection \<open>The numpy operations \<open>cross_validation\<close> calls\<close>

text \<open>Python's \<open>xs[st:en]\<close> for non-negative bounds: both are clipped to the length.\<close>

definition slice :: "'a list \<Rightarrow> nat \<Rightarrow> nat \<Rightarrow> 'a list" where
  "slice xs st en = take (en - st) (drop st xs)"

fun cumsum_from :: "nat \<Rightarrow> nat list \<Rightarrow> nat list" where
  "cumsum_from acc [] = []"
| "cumsum_from acc (x # xs) = (acc + x) # cumsum_from (acc + x) xs"

definition cumsum :: "nat list \<Rightarrow> nat list" where
  "cumsum xs = cumsum_from 0 xs"

text \<open>
  Modelled from the spec: \<open>numpy.array_split\<close> is a library function and not part of the
  sources.  The spec describes its result as \<open>n_folds\<close> nearly-equal contiguous chunks, sizes
  differing by at most one element, larger chunks first.  The definition computes that the way
  numpy does for a one-dimensional array and an integer number of sections: \<open>divmod\<close> of the
  length gives the section sizes, their running sum the division points, and section \<open>i\<close> is
  the slice between division points \<open>i\<close> and \<open>i + 1\<close>.  A number of sections that is not
  positive raises \<open>ValueError\<close>.
\<close>

definition array_split :: "'a list \<Rightarrow> int \<Rightarrow> error + 'a list list" where
  "array_split ary indices_or_sections =
     (let Ntotal = length ary;
          Nsections = indices_or_sections
      in if Nsections \<le> 0 then Inl (ValueError Number_sections)
         else
           let n = nat Nsections;
               Neach_section = Ntotal div n;
               extras = Ntotal mod n;
               section_sizes = [0] @ replicate extras (Neach_section + 1)
                                   @ replicate (n - extras) Neach_section;
               div_points = cumsum section_sizes
           in Inr (map (\<lambda>i. slice ary (div_points ! i) (div_points ! (i + 1))) [0..<n]))"

text \<open>
  \<open>numpy.concatenate\<close> of a Python list of one-dimensional arrays: their elements in
  order; the empty list of arrays raises \<open>ValueError\<close>.
\<close>

definition concatenate :: "'a list list \<Rightarrow> error + 'a list" where
  "concatenate arrays =
     (if arrays = [] then Inl (ValueError Need_one_array) else Inr (concat arrays))"

subsection \<open>\<open>cross_validation\<close>\<close>

text \<open>
  \<open>fold_idx\<close> and \<open>n_folds\<close> are Python integers.  After the range check \<open>fold_idx\<close> is
  a valid index of the list of folds, so the list slices \<open>_folders[:fold_idx]\<close> and
  \<open>_folders[fold_idx + 1:]\<close> are \<open>take\<close> and \<open>drop\<close>; the tuple is evaluated left to right,
  the concatenation first.
\<close>

definition cross_validation :: "'a list \<Rightarrow> int \<Rightarrow> int \<Rightarrow> error + ('a list \<times> 'a list)" where
  "cross_validation x fold_idx n_folds =
     (if fold_idx < 0 \<or> fold_idx \<ge> n_folds
      then Inl (ValueError (Fold_index fold_idx n_folds))
      else
        case array_split x n_folds of
          Inl e \<Rightarrow> Inl e
        | Inr folders \<Rightarrow>
            (case concatenate (take (nat fold_idx) folders @ drop (nat (fold_idx + 1)) folders) of
               Inl e \<Rightarrow> Inl e
             | Inr train \<Rightarrow> Inr (train, folders ! nat fold_idx)))"

subsection \<open>Section sizes and division points\<close>

text \<open>
  The sizes of the sections of \<open>array_split\<close> without the leading \<open>0\<close>, and the division
  point before section \<open>k\<close> (the sum of the first \<open>k\<close> sizes): the names the properties
  below are stated with.
\<close>

definition section_sizes :: "nat \<Rightarrow> nat \<Rightarrow> nat list" where
  "section_sizes Ntotal n =
     replicate (Ntotal mod n) (Ntotal div n + 1) @ replicate (n - Ntotal mod n) (Ntotal div n)"

definition div_point :: "nat \<Rightarrow> nat \<Rightarrow> nat \<Rightarrow> nat" where
  "div_point Ntotal n k = sum_list (take k (section_sizes Ntotal n))"

text \<open>Ten labelled paths, for the examples.\<close>

definition ten_paths :: "string list" where
  "ten_paths = [''p0'', ''p1'', ''p2'', ''p3'', ''p4'', ''p5'', ''p6'', ''p7'', ''p8'', ''p9'']"

section \<open>The \<open>Dataset\<close> class\<close>

subsection \<open>Construction\<close>

text \<open>
  The \<open>params\<close> object is read only: the worker id and count (which may be \<open>None\<close>) and
  the augmentation flag.
\<close>

record Params =
  worker_id :: "int option"
  num_workers :: "int option"
  augment :: bool

text \<open>Python's \<open>v if v else d\<close> for an integer or \<open>None\<close>: \<open>None\<close> and \<open>0\<close> are falsy.\<close>

definition if_else :: "int option \<Rightarrow> int \<Rightarrow> int" where
  "if_else v d = (case v of None \<Rightarrow> d | Some w \<Rightarrow> if w = 0 then d else w)"

text \<open>\<open>os.path.join\<close> of two components (\<open>posixpath\<close>).\<close>

definition os_path_join :: "string \<Rightarrow> string \<Rightarrow> string" where
  "os_path_join a b =
     (if b \<noteq> [] \<and> hd b = CHR ''/'' then b
      else if a = [] \<or> last a = CHR ''/'' then a @ b
      else a @ ''/'' @ b)"

text \<open>
  The attributes of a \<open>Dataset\<close>.  A private attribute \<open>_name\<close> of the source is the
  field \<open>p_name\<close> here (an Isabelle name cannot start with an underscore).
\<close>

record Dataset =
  p_folders :: "string list"
  p_train :: "string list"
  p_eval :: "string list"
  p_pipeline_factor :: int
  p_data_dir :: string
  params :: Params
  p_hpu_id :: int
  p_num_hpus :: int
  p_batch_size :: int
  p_seed :: int
  p_xshape :: "nat list"
  p_yshape :: "nat list"

text \<open>
  \<open>__init__\<close>.  \<open>listing\<close> is what \<open>os.listdir(data_dir)\<close> returned.  \<open>params\<close> defaults to
  \<open>None\<close>, and reading \<open>params.worker_id\<close> of \<open>None\<close> raises \<open>AttributeError\<close>; the split
  is computed before that.
\<close>

definition Dataset_init ::
  "string list \<Rightarrow> string \<Rightarrow> int \<Rightarrow> int \<Rightarrow> int \<Rightarrow> int \<Rightarrow> int \<Rightarrow> Params option
     \<Rightarrow> error + Dataset" where
  "Dataset_init listing data_dir batch_size fold_idx n_folds seed pipeline_factor params' =
     (let folders = map (\<lambda>path. os_path_join data_dir path) listing
      in case cross_validation folders fold_idx n_folds of
           Inl e \<Rightarrow> Inl e
         | Inr (train, eval) \<Rightarrow>
             (case params' of
                None \<Rightarrow> Inl (AttributeError ''worker_id'')
              | Some p \<Rightarrow>
                  Inr \<lparr> p_folders = folders, p_train = train, p_eval = eval,
                        p_pipeline_factor = pipeline_factor, p_data_dir = data_dir, params = p,
                        p_hpu_id = if_else (worker_id p) 0,
                        p_num_hpus = if_else (num_workers p) 1,
                        p_batch_size = batch_size, p_seed = seed,
                        p_xshape = [240, 240, 155, 4], p_yshape = [240, 240, 155] \<rparr>))"

definition train_size :: "Dataset \<Rightarrow> nat" where
  "train_size self = length (p_train self)"

definition eval_size :: "Dataset \<Rightarrow> nat" where
  "eval_size self = length (p_eval self)"

definition test_size :: "Dataset \<Rightarrow> nat" where
  "test_size self = length (p_eval self)"

subsection \<open>Record parsing\<close>

text \<open>
  A serialized record is represented by the \<open>Example\<close> message it encodes: a map from feature
  names to features.  The float values are carried through unchanged, so their type is a
  parameter.  A tensor is its shape and its values in row-major order.
\<close>

datatype 'f feature =
  BytesList "8 word list list"
| FloatList "'f list"
| Int64List "int list"

type_synonym 'f example = "string \<rightharpoonup> 'f feature"

record 'a tensor =
  shape :: "nat list"
  data :: "'a list"

text \<open>
  Modelled from the spec: the TensorFlow operations \<open>parse\<close> calls are library functions and
  not part of the sources.  The spec says that each record must contain the fields \<open>X\<close> and
  \<open>Y\<close> (raw bytes, reshaped to the fixed shapes), \<open>mean\<close> and \<open>stdev\<close> (4 float32 each), and
  that parsing fails if a record lacks these exact fields or shapes.  So
  \<open>FixedLenFeature([], tf.string)\<close> asks for a bytes feature with exactly one value,
  \<open>FixedLenFeature([4], tf.float32)\<close> for a float feature with exactly four;
  \<open>decode_raw\<close> to \<open>uint8\<close> yields one element per byte; \<open>reshape\<close> fails unless the number
  of elements is the product of the requested shape; \<open>cast\<close> of \<open>uint8\<close> to \<open>uint8\<close> changes
  nothing.
\<close>

definition fixed_len_string :: "'f example \<Rightarrow> string \<Rightarrow> error + 8 word list" where
  "fixed_len_string serialized key =
     (case serialized key of
        Some (BytesList [b]) \<Rightarrow> Inr b
      | _ \<Rightarrow> Inl (InvalidArgumentError (Feature_missing key)))"

definition fixed_len_float :: "'f example \<Rightarrow> string \<Rightarrow> nat \<Rightarrow> error + 'f tensor" where
  "fixed_len_float serialized key n =
     (case serialized key of
        Some (FloatList v) \<Rightarrow>
          if length v = n then Inr \<lparr> shape = [n], data = v \<rparr>
          else Inl (InvalidArgumentError (Feature_missing key))
      | _ \<Rightarrow> Inl (InvalidArgumentError (Feature_missing key)))"

definition decode_raw :: "8 word list \<Rightarrow> 8 word tensor" where
  "decode_raw b = \<lparr> shape = [length b], data = b \<rparr>"

definition reshape :: "'a tensor \<Rightarrow> nat list \<Rightarrow> error + 'a tensor" where
  "reshape t s =
     (if length (data t) = prod_list s then Inr \<lparr> shape = s, data = data t \<rparr>
      else Inl (InvalidArgumentError (Reshape_mismatch (length (data t)) s)))"

text \<open>
  The four features \<open>parse_single_example\<close> is asked for, in the order of the \<open>features\<close>
  dictionary.
\<close>

definition parse_single_example ::
  "'f example \<Rightarrow> error + (8 word list \<times> 8 word list \<times> 'f tensor \<times> 'f tensor)" where
  "parse_single_example serialized =
     (case fixed_len_string serialized ''X'' of
        Inl e \<Rightarrow> Inl e
      | Inr X \<Rightarrow>
     (case fixed_len_string serialized ''Y'' of
        Inl e \<Rightarrow> Inl e
      | Inr Y \<Rightarrow>
     (case fixed_len_float serialized ''mean'' 4 of
        Inl e \<Rightarrow> Inl e
      | Inr mean \<Rightarrow>
     (case fixed_len_float serialized ''stdev'' 4 of
        Inl e \<Rightarrow> Inl e
      | Inr stdev \<Rightarrow> Inr (X, Y, mean, stdev)))))"

text \<open>\<open>Dataset.parse\<close> and \<open>Dataset.parse_x\<close>, from the source.\<close>

definition parse ::
  "Dataset \<Rightarrow> 'f example \<Rightarrow> error + (8 word tensor \<times> 8 word tensor \<times> 'f tensor \<times> 'f tensor)" where
  "parse self serialized =
     (case parse_single_example serialized of
        Inl e \<Rightarrow> Inl e
      | Inr (X, Y, mean, stdev) \<Rightarrow>
     (case reshape (decode_raw X) (p_xshape self) of
        Inl e \<Rightarrow> Inl e
      | Inr x \<Rightarrow>
     (case reshape (decode_raw Y) (p_yshape self) of
        Inl e \<Rightarrow> Inl e
      | Inr y \<Rightarrow> Inr (x, y, mean, stdev))))"

definition parse_x ::
  "Dataset \<Rightarrow> 'f example \<Rightarrow> error + (8 word tensor \<times> 'f tensor \<times> 'f tensor)" where
  "parse_x self serialized =
     (case parse_single_example serialized of
        Inl e \<Rightarrow> Inl e
      | Inr (X, Y, mean, stdev) \<Rightarrow>
     (case reshape (decode_raw X) (p_xshape self) of
        Inl e \<Rightarrow> Inl e
      | Inr x \<Rightarrow> Inr (x, mean, stdev)))"

subsection \<open>Pipelines\<close>

text \<open>
  A \<open>tf.data\<close> dataset is built by chaining operators; what this code decides is which
  operators are chained, with which arguments and in which order.  A dataset value is
  therefore the list of the operators applied so far, the source first.  The transforms are
  objects constructed from the classes of \<open>dataset.transforms\<close> and handed on: they are
  represented by their constructor calls.  A builder is the sequence of operator calls the
  source makes; what an operator then does with its arguments is read off the pipeline by
  the functions of the subsection after the builders.
\<close>

datatype dtype = Uint8 | Int32 | Float32

datatype transform =
  RandomCrop3D "nat \<times> nat \<times> nat"
| RandomHorizontalFlip
| Cast dtype
| NormalizeImages
| RandomBrightnessCorrection
| OneHotLabels nat
| CenterCrop "nat \<times> nat \<times> nat"
| PadXYZ "(nat \<times> nat \<times> nat) option"
    \<comment> \<open>\<open>PadXYZ()\<close> is \<open>PadXYZ None\<close>, \<open>PadXYZ((224, 224, 160))\<close> is \<open>PadXYZ (Some ...)\<close>\<close>

text \<open>\<open>tf.data.experimental.AUTOTUNE\<close>, or a given number.\<close>

datatype tuning = AUTOTUNE | Given int

text \<open>
  The random tensors of the synthetic pipelines: shape, element type, the two bounds
  (\<open>minval\<close>, \<open>maxval\<close>) or moments (\<open>mean\<close>, \<open>stddev\<close>; the float literals \<open>0.0\<close> and
  \<open>1.0\<close> are written as the integers they equal), and the seed.
\<close>

datatype random_tensor =
  Random_uniform "nat list" dtype int int int
| Truncated_normal "nat list" dtype int int int

text \<open>
  Where the mapped function takes \<open>mean\<close> and \<open>stdev\<close> from: the parsed record, or two
  constants.
\<close>

datatype stats = Of_record | Constants int int

datatype map_func =
  Parse
| Parse_x
| Apply_transforms stats "transform option list"
| Apply_test_transforms "transform option list"

datatype op =
  TFRecordDataset "string list"
| From_tensors "random_tensor list"
| Shard int int
| Cache
| Shuffle int int
| Repeat "int option"
| Map_op map_func tuning
| Batch int bool
| Prefetch tuning
| Prefetch_to_device string

type_synonym dataset = "op list"

text \<open>
  What a builder does: it returns a dataset, or it raises; \<open>Raised e ds\<close> also records the
  dataset that had been constructed when \<open>e\<close> was raised (\<open>[]\<close> when nothing had been).
\<close>

datatype build = Returned dataset | Raised error dataset

text \<open>
  \<open>Dataset.prefetch\<close>.  \<open>hpu\<close> is what \<open>tf.config.list_logical_devices('HPU')\<close> returns,
  each device given by its name.
\<close>

definition prefetch :: "string list \<Rightarrow> dataset \<Rightarrow> tuning \<Rightarrow> dataset" where
  "prefetch hpu ds buffer_size =
     (if length hpu > 0 then ds @ [Prefetch_to_device (hd hpu)]
      else ds @ [Prefetch buffer_size])"

definition train_fn :: "string list \<Rightarrow> Dataset \<Rightarrow> build" where
  "train_fn hpu self =
     (if \<not> length (p_train self) > 0 then Raised (AssertionError ''Training data not found.'') []
      else
        let ds = [TFRecordDataset (p_train self)];
            ds = ds @ [Shard (p_num_hpus self) (p_hpu_id self)];
            ds = ds @ [Cache];
            ds = ds @ [Shuffle (p_batch_size self * 8) (p_seed self)];
            ds = ds @ [Repeat None];
            ds = ds @ [Map_op Parse AUTOTUNE];
            transforms = [
              Some (RandomCrop3D (128, 128, 128)),
              if augment (params self) then Some RandomHorizontalFlip else None,
              Some (Cast Float32),
              Some NormalizeImages,
              if augment (params self) then Some RandomBrightnessCorrection else None,
              Some (OneHotLabels 4)];
            ds = ds @ [Map_op (Apply_transforms Of_record transforms) AUTOTUNE];
            ds = ds @ [Batch (p_batch_size self) True];
            ds = prefetch hpu ds AUTOTUNE
        in Returned ds)"

definition eval_fn :: "string list \<Rightarrow> Dataset \<Rightarrow> build" where
  "eval_fn hpu self =
     (let ds = [TFRecordDataset (p_eval self)]
      in if \<not> length (p_eval self) > 0
         then Raised (AssertionError ''Evaluation data not found. Did you specify --fold flag?'') ds
         else
           let ds = ds @ [Cache];
               ds = ds @ [Map_op Parse AUTOTUNE];
               transforms = [
                 Some (CenterCrop (224, 224, 155)),
                 Some (Cast Float32),
                 Some NormalizeImages,
                 Some (OneHotLabels 4),
                 Some (PadXYZ None)];
               ds = ds @ [Map_op (Apply_transforms Of_record transforms) AUTOTUNE];
               ds = ds @ [Batch (p_batch_size self) False];
               ds = prefetch hpu ds AUTOTUNE
           in Returned ds)"

definition test_fn :: "string list \<Rightarrow> Dataset \<Rightarrow> int \<Rightarrow> bool \<Rightarrow> build" where
  "test_fn hpu self count' drop_remainder =
     (let ds = [TFRecordDataset (p_eval self)]
      in if \<not> length (p_eval self) > 0
         then Raised (AssertionError ''Evaluation data not found. Did you specify --fold flag?'') ds
         else
           let ds = ds @ [Repeat (Some count')];
               ds = ds @ [Map_op Parse_x AUTOTUNE];
               transforms = [
                 Some (CenterCrop (224, 224, 155)),
                 Some (Cast Float32),
                 Some NormalizeImages,
                 Some (PadXYZ (Some (224, 224, 160)))];
               ds = ds @ [Map_op (Apply_test_transforms transforms) AUTOTUNE];
               ds = ds @ [Batch (p_batch_size self) drop_remainder];
               ds = prefetch hpu ds AUTOTUNE
           in Returned ds)"



subsection \<open>Reading a pipeline\<close>

text \<open>
  Modelled from the spec: \<open>apply_transforms\<close> and \<open>apply_test_transforms\<close> are functions of
  \<open>dataset.transforms\<close>, which is not part of the sources.  The spec says that the reducer
  threads the tuple through each non-null transform in sequence and skips the entries marked
  inactive.  So the chain a mapped function applies is the list of its transforms that are
  not \<open>None\<close>, in order; \<open>parse\<close> and \<open>parse_x\<close> apply none.
\<close>

fun active :: "transform option list \<Rightarrow> transform list" where
  "active [] = []"
| "active (None # ts) = active ts"
| "active (Some t # ts) = t # active ts"

fun chain_of_op :: "op \<Rightarrow> transform list" where
  "chain_of_op (Map_op (Apply_transforms s ts) n) = active ts"
| "chain_of_op (Map_op (Apply_test_transforms ts) n) = active ts"
| "chain_of_op other = []"

definition transform_chain :: "dataset \<Rightarrow> transform list" where
  "transform_chain ds = concat (map chain_of_op ds)"

text \<open>The dataset a builder returned; nothing when it raised.\<close>

fun built :: "build \<Rightarrow> dataset" where
  "built (Returned ds) = ds"
| "built (Raised e ds) = []"

text \<open>
  The operators applied before the first occurrence of \<open>p\<close>: what the stage \<open>p\<close> reads
  its elements from.
\<close>

definition upstream :: "op \<Rightarrow> dataset \<Rightarrow> dataset" where
  "upstream p ds = takeWhile (\<lambda>q. q \<noteq> p) ds"

text \<open>Whether the elements a dataset yields have been parsed (decoded into tensors).\<close>

fun is_parse :: "op \<Rightarrow> bool" where
  "is_parse (Map_op Parse n) = True"
| "is_parse (Map_op Parse_x n) = True"
| "is_parse other = False"

definition decoded :: "dataset \<Rightarrow> bool" where
  "decoded ds = list_ex is_parse ds"

text \<open>
  What \<open>repeat\<close> does with its count.  \<open>tf.data\<close>'s \<open>repeat\<close> is a library operation and
  not part of the sources.  Modelled from the spec, which has the training pipeline repeat
  indefinitely (no count) and the test pipeline repeat \<open>count\<close> times, and from the
  operation's documentation for the other counts: the count is converted to a signed 64-bit
  integer, which raises \<open>ValueError\<close> when it does not fit; no count or a negative count
  repeats the dataset endlessly; any other count repeats it that many times.
\<close>

datatype repetition = Times nat | Endless

definition repeat_op :: "int option \<Rightarrow> error + repetition" where
  "repeat_op c =
     (case c of
        None \<Rightarrow> Inr Endless
      | Some n \<Rightarrow>
          if n < - (2 ^ 63) \<or> 2 ^ 63 \<le> n then Inl (ValueError Out_of_int64)
          else if n < 0 then Inr Endless
          else Inr (Times (nat n)))"

fun repeat_stage :: "op \<Rightarrow> (error + repetition) option" where
  "repeat_stage (Repeat c) = Some (repeat_op c)"
| "repeat_stage other = None"

text \<open>What the \<open>repeat\<close> stages of a pipeline do, in order.\<close>

definition repetitions :: "dataset \<Rightarrow> (error + repetition) list" where
  "repetitions ds = List.map_filter repeat_stage ds"

text \<open>
  What a parsing stage yields for one serialized record: \<open>map(self.parse)\<close> applies
  \<open>Dataset.parse\<close> and yields the volume with its label, \<open>map(self.parse_x)\<close> applies
  \<open>Dataset.parse_x\<close> and yields the volume without a label; each also yields the record's
  mean and stdev.
\<close>

datatype 'f element =
  Labelled "8 word tensor" "8 word tensor" "'f tensor" "'f tensor"
| Unlabelled "8 word tensor" "'f tensor" "'f tensor"

fun parse_stage :: "Dataset \<Rightarrow> op \<Rightarrow> 'f example \<Rightarrow> (error + 'f element) option" where
  "parse_stage self (Map_op Parse n) serialized =
     Some (case parse self serialized of
             Inl e \<Rightarrow> Inl e
           | Inr (x, y, mean, stdev) \<Rightarrow> Inr (Labelled x y mean stdev))"
| "parse_stage self (Map_op Parse_x n) serialized =
     Some (case parse_x self serialized of
             Inl e \<Rightarrow> Inl e
           | Inr (x, mean, stdev) \<Rightarrow> Inr (Unlabelled x mean stdev))"
| "parse_stage self other serialized = None"

text \<open>What the parsing stages of a pipeline yield for one serialized record, in order.\<close>

definition parse_stages :: "Dataset \<Rightarrow> dataset \<Rightarrow> 'f example \<Rightarrow> (error + 'f element) list" where
  "parse_stages self ds serialized = List.map_filter (\<lambda>p. parse_stage self p serialized) ds"

subsection \<open>A dataset for the examples\<close>

definition sample_params :: Params where
  "sample_params = \<lparr> worker_id = Some 1, num_workers = Some 4, augment = True \<rparr>"

text \<open>
  Three entries, two folds, fold 0 held out; and one entry, five folds, fold 1 held out
  (an empty fold).
\<close>

definition sample_dataset :: Dataset where
  "sample_dataset =
     \<lparr> p_folders = [''/data/a'', ''/data/b'', ''/data/c''],
       p_train = [''/data/c''], p_eval = [''/data/a'', ''/data/b''],
       p_pipeline_factor = 1, p_data_dir = ''/data'', params = sample_params,
       p_hpu_id = 1, p_num_hpus = 4, p_batch_size = 2, p_seed = 0,
       p_xshape = [240, 240, 155, 4], p_yshape = [240, 240, 155] \<rparr>"

definition empty_eval_dataset :: Dataset where
  "empty_eval_dataset =
     \<lparr> p_folders = [''/data/a''],
       p_train = [''/data/a''], p_eval = [],
       p_pipeline_factor = 1, p_data_dir = ''/data'', params = sample_params,
       p_hpu_id = 1, p_num_hpus = 4, p_batch_size = 2, p_seed = 0,
       p_xshape = [240, 240, 155, 4], p_yshape = [240, 240, 155] \<rparr>"

definition empty_train_dataset :: Dataset where
  "empty_train_dataset =
     \<lparr> p_folders = [''/data/a''],
       p_train = [], p_eval = [''/data/a''],
       p_pipeline_factor = 1, p_data_dir = ''/data'', params = sample_params,
       p_hpu_id = 1, p_num_hpus = 4, p_batch_size = 2, p_seed = 0,
       p_xshape = [240, 240, 155, 4], p_yshape = [240, 240, 155] \<rparr>"

subsection \<open>Records for the examples\<close>

text \<open>
  A record with all four fields in the stored format, one whose \<open>Y\<close> holds only three
  bytes, one without \<open>Y\<close>, and one whose \<open>X\<close> holds only five bytes.  The float
  values are written as integers.
\<close>

definition good_record :: "int example" where
  "good_record =
     [''X'' \<mapsto> BytesList [replicate 35712000 0],
      ''Y'' \<mapsto> BytesList [replicate 8928000 1],
      ''mean'' \<mapsto> FloatList [1, 2, 3, 4],
      ''stdev'' \<mapsto> FloatList [5, 6, 7, 8]]"

definition short_label_record :: "int example" where
  "short_label_record =
     [''X'' \<mapsto> BytesList [replicate 35712000 0],
      ''Y'' \<mapsto> BytesList [replicate 3 1],
      ''mean'' \<mapsto> FloatList [1, 2, 3, 4],
      ''stdev'' \<mapsto> FloatList [5, 6, 7, 8]]"

definition no_label_record :: "int example" where
  "no_label_record =
     [''X'' \<mapsto> BytesList [replicate 35712000 0],
      ''mean'' \<mapsto> FloatList [1, 2, 3, 4],
      ''stdev'' \<mapsto> FloatList [5, 6, 7, 8]]"

definition short_record :: "int example" where
  "short_record =
     [''X'' \<mapsto> BytesList [replicate 5 0],
      ''Y'' \<mapsto> BytesList [replicate 8928000 1],
      ''mean'' \<mapsto> FloatList [1, 2, 3, 4],
      ''stdev'' \<mapsto> FloatList [5, 6, 7, 8]]"

section \<open>Properties of the fold splitter\<close>

subsection \<open>Division points\<close>

lemma cumsum_from_nth:
  "i < length ss \<Longrightarrow> cumsum_from a ss ! i = a + sum_list (take (Suc i) ss)"
proof (induction ss arbitrary: a i)
  case Nil
  then show ?case by simp
next
  case (Cons s ss)
  show ?case
  proof (cases i)
    case 0
    then show ?thesis by simp
  next
    case (Suc j)
    with Cons.prems have "j < length ss" by simp
    from Cons.IH [OF this, of "a + s"] Suc show ?thesis by simp
  qed
qed

lemma div_points_nth:
  "i \<le> length ss \<Longrightarrow> cumsum (0 # ss) ! i = sum_list (take i ss)"
  by (cases i) (simp_all add: cumsum_def cumsum_from_nth)

lemma sum_take_le: "sum_list (take k (ss::nat list)) \<le> sum_list ss"
proof -
  have "sum_list ss = sum_list (take k ss) + sum_list (drop k ss)"
    by (metis append_take_drop_id sum_list_append)
  then show ?thesis by simp
qed

lemma sum_take_Suc:
  "k < length ss \<Longrightarrow> sum_list (take (Suc k) ss) = sum_list (take k ss) + (ss ! k :: nat)"
  by (simp add: take_Suc_conv_app_nth)

lemma section_sizes_length: "0 < n \<Longrightarrow> length (section_sizes N n) = n"
  by (simp add: section_sizes_def less_imp_le)

lemma section_sizes_sum: "0 < n \<Longrightarrow> sum_list (section_sizes N n) = N"
proof -
  assume n: "0 < n"
  have le: "N mod n \<le> n" using n by (simp add: less_imp_le)
  have "sum_list (section_sizes N n) = (N mod n) * (N div n + 1) + (n - N mod n) * (N div n)"
    by (simp add: section_sizes_def sum_list_replicate)
  also have "\<dots> = N mod n + ((N mod n) + (n - N mod n)) * (N div n)"
    by (simp add: algebra_simps)
  also have "\<dots> = N mod n + n * (N div n)" using le by simp
  also have "\<dots> = N" by simp
  finally show ?thesis .
qed

lemma section_sizes_nth:
  "k < n \<Longrightarrow> section_sizes N n ! k = (if k < N mod n then N div n + 1 else N div n)"
  by (auto simp: section_sizes_def nth_append)

lemma div_point_Suc: "0 < n \<Longrightarrow> k < n \<Longrightarrow>
  div_point N n (Suc k) = div_point N n k + (if k < N mod n then N div n + 1 else N div n)"
  by (simp add: div_point_def sum_take_Suc section_sizes_length section_sizes_nth)

lemma div_point_le: "0 < n \<Longrightarrow> div_point N n k \<le> N"
  using sum_take_le [of k "section_sizes N n"] by (simp add: div_point_def section_sizes_sum)

lemma div_point_mono: "0 < n \<Longrightarrow> k < n \<Longrightarrow> div_point N n k \<le> div_point N n (Suc k)"
  by (simp add: div_point_Suc)

subsection \<open>Slices\<close>

lemma take_slice_drop: "lo \<le> hi \<Longrightarrow> take lo xs @ slice xs lo hi @ drop hi xs = xs"
proof -
  assume "lo \<le> hi"
  then have "drop hi xs = drop (hi - lo) (drop lo xs)" by simp
  then have "slice xs lo hi @ drop hi xs
      = take (hi - lo) (drop lo xs) @ drop (hi - lo) (drop lo xs)"
    unfolding slice_def by (rule arg_cong)
  also have "\<dots> = drop lo xs" by (rule append_take_drop_id)
  finally show ?thesis by simp
qed

lemma concat_slices:
  "n \<le> length ss \<Longrightarrow>
   concat (map (\<lambda>i. slice xs (sum_list (take i ss)) (sum_list (take (Suc i) ss))) [0..<n])
     = take (sum_list (take n ss)) xs"
proof (induction n)
  case 0
  then show ?case by simp
next
  case (Suc n)
  then have n: "n < length ss" by simp
  have step: "sum_list (take (Suc n) ss) = sum_list (take n ss) + ss ! n"
    using n by (rule sum_take_Suc)
  from Suc have
    "concat (map (\<lambda>i. slice xs (sum_list (take i ss)) (sum_list (take (Suc i) ss))) [0..<n])
       = take (sum_list (take n ss)) xs" by simp
  then show ?case
    unfolding step by (simp add: slice_def step take_add)
qed

lemma length_slice_div_points: "0 < n \<Longrightarrow> k < n \<Longrightarrow>
  length (slice x (div_point (length x) n k) (div_point (length x) n (Suc k)))
    = (if k < length x mod n then length x div n + 1 else length x div n)"
  using div_point_le [of n "length x" "Suc k"] div_point_Suc [of n k "length x"]
  by (simp add: slice_def)

subsection \<open>What \<open>array_split\<close> returns\<close>

lemma array_split_eq:
  assumes "0 < n"
  shows "array_split ary (int n) =
    Inr (map (\<lambda>i. slice ary (sum_list (take i (section_sizes (length ary) n)))
                            (sum_list (take (Suc i) (section_sizes (length ary) n)))) [0..<n])"
proof -
  let ?ss = "section_sizes (length ary) n"
  have len: "length ?ss = n" using assms by (rule section_sizes_length)
  have "map (\<lambda>i. slice ary (cumsum (0 # ?ss) ! i) (cumsum (0 # ?ss) ! (i + 1))) [0..<n]
      = map (\<lambda>i. slice ary (sum_list (take i ?ss)) (sum_list (take (Suc i) ?ss))) [0..<n]"
    by (rule map_cong) (simp_all add: div_points_nth len del: upt_Suc)
  then show ?thesis
    using assms by (simp add: array_split_def Let_def section_sizes_def)
qed

lemma array_split_props:
  assumes n: "0 < n"
  shows "\<exists>fs. array_split x (int n) = Inr fs \<and> length fs = n \<and> concat fs = x
     \<and> (\<forall>k<n. fs ! k = slice x (div_point (length x) n k) (div_point (length x) n (Suc k)))
     \<and> (\<forall>k\<le>n. concat (take k fs) = take (div_point (length x) n k) x)"
proof -
  let ?ss = "section_sizes (length x) n"
  let ?f = "\<lambda>i. slice x (sum_list (take i ?ss)) (sum_list (take (Suc i) ?ss))"
  let ?fs = "map ?f [0..<n]"
  have len: "length ?ss = n" using n by (rule section_sizes_length)
  have sum: "sum_list ?ss = length x" using n by (rule section_sizes_sum)
  have eq: "array_split x (int n) = Inr ?fs" using n by (rule array_split_eq)
  have tk: "concat (take k ?fs) = take (div_point (length x) n k) x" if "k \<le> n" for k
  proof -
    have "take k ?fs = map ?f [0..<k]" using that by (simp add: take_map min_def)
    moreover have "k \<le> length ?ss" using that len by simp
    ultimately show ?thesis by (simp add: concat_slices div_point_def del: upt_Suc)
  qed
  have "concat ?fs = take (sum_list (take n ?ss)) x"
    using concat_slices [of n ?ss x] len by simp
  then have cc: "concat ?fs = x" using len sum by simp
  have nth: "?fs ! k = slice x (div_point (length x) n k) (div_point (length x) n (Suc k))"
    if "k < n" for k
    using that by (simp add: div_point_def)
  show ?thesis using eq cc tk nth by (intro exI [of _ ?fs]) simp
qed

subsection \<open>What \<open>cross_validation\<close> returns\<close>

text \<open>
  With at least two folds and an index in range, the held-out set is the slice of the input
  between two consecutive division points, and the training set is what lies before and after
  it, in the input's order.
\<close>

lemma cross_validation_folders:
  assumes n2: "2 \<le> n_folds" and i0: "0 \<le> fold_idx" and i1: "fold_idx < n_folds"
    and fs: "array_split x n_folds = Inr fs" and len: "length fs = nat n_folds"
  shows "cross_validation x fold_idx n_folds =
     Inr (concat (take (nat fold_idx) fs @ drop (Suc (nat fold_idx)) fs), fs ! nat fold_idx)"
proof -
  have s: "nat (fold_idx + 1) = Suc (nat fold_idx)" using i0 by simp
  have "length (take (nat fold_idx) fs @ drop (Suc (nat fold_idx)) fs) = nat n_folds - 1"
    using len i0 i1 by simp
  then have "0 < length (take (nat fold_idx) fs @ drop (Suc (nat fold_idx)) fs)"
    using n2 by simp
  then have ne: "take (nat fold_idx) fs @ drop (Suc (nat fold_idx)) fs \<noteq> []"
    by (metis length_greater_0_conv)
  show ?thesis
    using i0 i1 fs ne s by (simp add: cross_validation_def concatenate_def)
qed

lemma cross_validation_eq:
  assumes n2: "2 \<le> n_folds" and i0: "0 \<le> fold_idx" and i1: "fold_idx < n_folds"
  shows "cross_validation x fold_idx n_folds =
     Inr (take (div_point (length x) (nat n_folds) (nat fold_idx)) x
            @ drop (div_point (length x) (nat n_folds) (Suc (nat fold_idx))) x,
          slice x (div_point (length x) (nat n_folds) (nat fold_idx))
                  (div_point (length x) (nat n_folds) (Suc (nat fold_idx))))"
proof -
  define n where "n = nat n_folds"
  define i where "i = nat fold_idx"
  let ?lo = "div_point (length x) n i" and ?hi = "div_point (length x) n (Suc i)"
  have n: "0 < n" "int n = n_folds" and i: "i < n"
    using n2 i0 i1 by (simp_all add: n_def i_def)
  from array_split_props [OF n(1), of x] obtain fs where
    fs: "array_split x (int n) = Inr fs" and len: "length fs = n" and cc: "concat fs = x"
    and nth: "\<forall>k<n. fs ! k = slice x (div_point (length x) n k) (div_point (length x) n (Suc k))"
    and tk: "\<forall>k\<le>n. concat (take k fs) = take (div_point (length x) n k) x"
    by blast
  have lo: "concat (take i fs) = take ?lo x" using tk i by simp
  have hi: "concat (take (Suc i) fs) = take ?hi x" using tk i by simp
  have "concat (take (Suc i) fs) @ concat (drop (Suc i) fs) = x"
    using cc by (simp flip: concat_append)
  then have "take ?hi x @ concat (drop (Suc i) fs) = take ?hi x @ drop ?hi x"
    unfolding append_take_drop_id using hi by simp
  then have dr: "concat (drop (Suc i) fs) = drop ?hi x"
    by (simp only: same_append_eq)
  have "cross_validation x fold_idx n_folds = Inr (concat (take i fs @ drop (Suc i) fs), fs ! i)"
    unfolding i_def using n2 i0 i1
  proof (rule cross_validation_folders)
    show "array_split x n_folds = Inr fs" using fs n(2) by simp
    show "length fs = nat n_folds" using len by (simp add: n_def)
  qed
  then show ?thesis
    using lo dr nth i by (simp add: n_def i_def)
qed

lemma cross_validation_10_5:
  "length x = 10 \<Longrightarrow> cross_validation x 0 5 = Inr (drop 2 x, take 2 x)"
proof -
  assume len: "length x = 10"
  have dp: "div_point 10 5 0 = 0" "div_point 10 5 (Suc 0) = 2"
    by (simp_all add: div_point_def section_sizes_def)
  show ?thesis
    using cross_validation_eq [of 5 0 x] by (simp add: len dp slice_def)
qed

lemma section_sizes_10_3: "section_sizes 10 3 = [4, 3, 3]"
proof -
  have "section_sizes 10 3 = replicate (Suc 0) 4 @ replicate 2 3"
    by (simp add: section_sizes_def)
  then show ?thesis by (simp add: numeral_2_eq_2)
qed

subsection \<open>The claims about \<open>cross_validation\<close>\<close>

text \<open>
  Claim C1, as amended.  For every input array \<open>x\<close>, every fold count \<open>n_folds \<ge> 2\<close> and
  every \<open>fold_idx\<close> with \<open>0 \<le> fold_idx < n_folds\<close>, \<open>cross_validation\<close> returns a pair
  \<open>(train, held_out)\<close> with \<open>|held_out| + |train| = |x|\<close>, whose union as sets is the set
  of the input and whose union as multisets is the input (every position of the input lands in
  exactly one of the two outputs); the two are disjoint as sets when the input paths are
  pairwise distinct.
\<close>

theorem cross_validation_partition:
  assumes "2 \<le> n_folds" and "0 \<le> fold_idx" and "fold_idx < n_folds"
  shows "\<exists>train held_out.
     cross_validation x fold_idx n_folds = Inr (train, held_out)
     \<and> length held_out + length train = length x
     \<and> set train \<union> set held_out = set x
     \<and> mset train + mset held_out = mset x
     \<and> (distinct x \<longrightarrow> set train \<inter> set held_out = {})"
proof -
  define lo where "lo = div_point (length x) (nat n_folds) (nat fold_idx)"
  define hi where "hi = div_point (length x) (nat n_folds) (Suc (nat fold_idx))"
  have le: "lo \<le> hi"
    unfolding lo_def hi_def using assms by (intro div_point_mono) simp_all
  have x: "take lo x @ slice x lo hi @ drop hi x = x"
    using le by (rule take_slice_drop)
  have eq: "cross_validation x fold_idx n_folds = Inr (take lo x @ drop hi x, slice x lo hi)"
    unfolding lo_def hi_def using assms by (rule cross_validation_eq)
  have "length (take lo x @ slice x lo hi @ drop hi x) = length x" using x by simp
  then have l: "length (slice x lo hi) + length (take lo x @ drop hi x) = length x"
    by simp
  have "set (take lo x @ slice x lo hi @ drop hi x) = set x" using x by simp
  then have s: "set (take lo x @ drop hi x) \<union> set (slice x lo hi) = set x"
    by auto
  have "mset (take lo x @ slice x lo hi @ drop hi x) = mset x" using x by simp
  then have m: "mset (take lo x @ drop hi x) + mset (slice x lo hi) = mset x"
    by (simp add: ac_simps)
  have d: "set (take lo x @ drop hi x) \<inter> set (slice x lo hi) = {}" if "distinct x"
  proof -
    from that x have "distinct (take lo x @ slice x lo hi @ drop hi x)" by simp
    then show ?thesis by auto
  qed
  show ?thesis using eq l s m d by blast
qed

text \<open>
  The instance of C1 at three distinct paths, two folds and fold index 1.
\<close>

theorem cross_validation_partition_witness:
  "(2::int) \<le> 2 \<and> (0::int) \<le> 1 \<and> (1::int) < 2 \<and> distinct [''a'', ''b'', ''c'']
   \<and> (\<exists>train held_out.
        cross_validation [''a'', ''b'', ''c''] 1 2 = Inr (train, held_out)
        \<and> length held_out + length train = length [''a'', ''b'', ''c'']
        \<and> set train \<union> set held_out = set [''a'', ''b'', ''c'']
        \<and> mset train + mset held_out = mset [''a'', ''b'', ''c'']
        \<and> set train \<inter> set held_out = {})"
proof -
  have h: "(2::int) \<le> 2" "(0::int) \<le> 1" "(1::int) < 2" by simp_all
  have d: "distinct [''a'', ''b'', ''c'']" by simp
  from cross_validation_partition [OF h, of "[''a'', ''b'', ''c'']"] d
  have "\<exists>train held_out.
        cross_validation [''a'', ''b'', ''c''] 1 2 = Inr (train, held_out)
        \<and> length held_out + length train = length [''a'', ''b'', ''c'']
        \<and> set train \<union> set held_out = set [''a'', ''b'', ''c'']
        \<and> mset train + mset held_out = mset [''a'', ''b'', ''c'']
        \<and> set train \<inter> set held_out = {}"
    by blast
  with h d show ?thesis by blast
qed

text \<open>
  Claim C1 as stated fails at two inputs.  With one fold, index 0 is in range, the list of
  the other folds is empty and \<open>concatenate\<close> raises \<open>ValueError\<close>: no pair is returned.
  With a path that occurs twice, one copy goes to each output, and the two outputs are not
  disjoint.
\<close>

theorem cross_validation_partition_counterexample:
  "cross_validation [''a'', ''b''] 0 1 = Inl (ValueError Need_one_array)
   \<and> cross_validation [''p'', ''p''] 0 2 = Inr ([''p''], [''p''])"
proof
  show "cross_validation [''a'', ''b''] 0 1 = Inl (ValueError Need_one_array)"
    by (simp add: cross_validation_def array_split_def concatenate_def Let_def)
  show "cross_validation [''p'', ''p''] 0 2 = Inr ([''p''], [''p''])"
    using cross_validation_eq [of 2 0 "[''p'', ''p'']"]
    by (simp add: div_point_def section_sizes_def slice_def)
qed

text \<open>
  Claim C2.  For every input array, whatever its size, and every \<open>fold_idx\<close> outside
  \<open>[0, n_folds)\<close>, \<open>cross_validation\<close> raises the \<open>ValueError\<close> of the range check
  and returns no result.
\<close>

theorem cross_validation_out_of_range:
  "fold_idx < 0 \<or> n_folds \<le> fold_idx \<Longrightarrow>
   cross_validation x fold_idx n_folds = Inl (ValueError (Fold_index fold_idx n_folds))"
  by (auto simp: cross_validation_def)

text \<open>
  The instances of C2 at a negative index, and at an index equal to the fold count over
  the empty array.
\<close>

theorem cross_validation_out_of_range_witness:
  "((-1::int) < 0 \<or> (5::int) \<le> -1)
   \<and> cross_validation [''a'', ''b''] (-1) 5 = Inl (ValueError (Fold_index (-1) 5))
   \<and> ((5::int) < 0 \<or> (5::int) \<le> 5)
   \<and> cross_validation ([]::string list) 5 5 = Inl (ValueError (Fold_index 5 5))"
proof -
  have a: "(-1::int) < 0 \<or> (5::int) \<le> -1" by simp
  have b: "(5::int) < 0 \<or> (5::int) \<le> 5" by simp
  show ?thesis
    using a b cross_validation_out_of_range [OF a, of "[''a'', ''b'']"]
      cross_validation_out_of_range [OF b, of "[]::string list"]
    by blast
qed

text \<open>
  The sections of \<open>array_split\<close>: as many as asked for, contiguous (their concatenation is
  the input), the first \<open>N mod n\<close> of size \<open>N div n + 1\<close> and the others of size
  \<open>N div n\<close>.
\<close>

lemma array_split_sizes:
  assumes n: "1 \<le> n_folds"
  shows "\<exists>folders. array_split x n_folds = Inr folders
      \<and> length folders = nat n_folds
      \<and> concat folders = x
      \<and> (\<forall>k<nat n_folds. length (folders ! k) =
            length x div nat n_folds + (if k < length x mod nat n_folds then 1 else 0))"
proof -
  have p: "0 < nat n_folds" and e: "int (nat n_folds) = n_folds" using n by simp_all
  from array_split_props [OF p, of x] obtain fs where
    fs: "array_split x n_folds = Inr fs" and len: "length fs = nat n_folds"
    and cc: "concat fs = x"
    and nth: "\<forall>k<nat n_folds. fs ! k = slice x (div_point (length x) (nat n_folds) k)
                                              (div_point (length x) (nat n_folds) (Suc k))"
    unfolding e by blast
  have "length (fs ! k) = length x div nat n_folds + (if k < length x mod nat n_folds then 1 else 0)"
    if "k < nat n_folds" for k
    using that nth length_slice_div_points [OF p that, of x] by simp
  with fs len cc show ?thesis by blast
qed

text \<open>
  Claim C3.  For every input of \<open>N\<close> elements and every fold count \<open>n_folds \<ge> 1\<close>, the
  list \<open>_folders\<close> that \<open>cross_validation\<close> computes partitions the input into \<open>n_folds\<close>
  contiguous chunks whose sizes differ by at most one element, the larger chunks first; with
  an index in range (and at least two folds) the training set is the concatenation of all
  chunks but the one at \<open>fold_idx\<close>, and that chunk is the held-out set.  For \<open>N = 10\<close> and
  \<open>n_folds = 3\<close> the chunk sizes are 4, 3, 3; for \<open>N = 10\<close>, \<open>n_folds = 5\<close> and
  \<open>fold_idx = 0\<close> the held-out set is the first 2 paths and the training set the remaining
  8, both in the input's order.
\<close>

theorem cross_validation_chunks:
  "(1 \<le> n_folds \<longrightarrow>
      (\<exists>folders. array_split x n_folds = Inr folders
         \<and> length folders = nat n_folds
         \<and> concat folders = x
         \<and> (\<forall>k<nat n_folds. length (folders ! k) =
               length x div nat n_folds + (if k < length x mod nat n_folds then 1 else 0))
         \<and> (\<forall>j k. j \<le> k \<and> k < nat n_folds \<longrightarrow>
               length (folders ! k) \<le> length (folders ! j)
               \<and> length (folders ! j) \<le> length (folders ! k) + 1)
         \<and> (\<forall>fold_idx. 2 \<le> n_folds \<and> 0 \<le> fold_idx \<and> fold_idx < n_folds \<longrightarrow>
               cross_validation x fold_idx n_folds =
                 Inr (concat (take (nat fold_idx) folders @ drop (Suc (nat fold_idx)) folders),
                      folders ! nat fold_idx))))
   \<and> (length y = 10 \<longrightarrow>
        (\<exists>a b c. array_split y 3 = Inr [a, b, c]
           \<and> length a = 4 \<and> length b = 3 \<and> length c = 3))
   \<and> (length z = 10 \<longrightarrow> cross_validation z 0 5 = Inr (drop 2 z, take 2 z))
   \<and> cross_validation [p0, p1, p2, p3, p4, p5, p6, p7, p8, p9] 0 5
        = Inr ([p2, p3, p4, p5, p6, p7, p8, p9], [p0, p1])"
proof (intro conjI impI)
  assume n: "1 \<le> n_folds"
  from array_split_sizes [OF n, of x] obtain fs where
    fs: "array_split x n_folds = Inr fs" and len: "length fs = nat n_folds"
    and cc: "concat fs = x"
    and sz: "\<forall>k<nat n_folds. length (fs ! k) =
               length x div nat n_folds + (if k < length x mod nat n_folds then 1 else 0)"
    by blast
  have ord: "length (fs ! k) \<le> length (fs ! j) \<and> length (fs ! j) \<le> length (fs ! k) + 1"
    if "j \<le> k \<and> k < nat n_folds" for j k
  proof -
    from that have "j < nat n_folds" "k < nat n_folds" by simp_all
    with sz have
      "length (fs ! j) = length x div nat n_folds + (if j < length x mod nat n_folds then 1 else 0)"
      "length (fs ! k) = length x div nat n_folds + (if k < length x mod nat n_folds then 1 else 0)"
      by simp_all
    with that show ?thesis by (simp split: if_splits)
  qed
  have cv: "cross_validation x fold_idx n_folds =
      Inr (concat (take (nat fold_idx) fs @ drop (Suc (nat fold_idx)) fs), fs ! nat fold_idx)"
    if "2 \<le> n_folds \<and> 0 \<le> fold_idx \<and> fold_idx < n_folds" for fold_idx
    using that fs len by (intro cross_validation_folders) simp_all
  show "\<exists>folders. array_split x n_folds = Inr folders
         \<and> length folders = nat n_folds
         \<and> concat folders = x
         \<and> (\<forall>k<nat n_folds. length (folders ! k) =
               length x div nat n_folds + (if k < length x mod nat n_folds then 1 else 0))
         \<and> (\<forall>j k. j \<le> k \<and> k < nat n_folds \<longrightarrow>
               length (folders ! k) \<le> length (folders ! j)
               \<and> length (folders ! j) \<le> length (folders ! k) + 1)
         \<and> (\<forall>fold_idx. 2 \<le> n_folds \<and> 0 \<le> fold_idx \<and> fold_idx < n_folds \<longrightarrow>
               cross_validation x fold_idx n_folds =
                 Inr (concat (take (nat fold_idx) folders @ drop (Suc (nat fold_idx)) folders),
                      folders ! nat fold_idx))"
    using fs len cc sz ord cv by (intro exI [of _ fs]) blast
next
  assume len: "length y = 10"
  from array_split_sizes [of 3 y] obtain fs where
    fs: "array_split y 3 = Inr fs" and l3: "length fs = 3"
    and sz: "\<forall>k<3. length (fs ! k) = length y div 3 + (if k < length y mod 3 then 1 else 0)"
    by auto
  from l3 obtain a b c where abc: "fs = [a, b, c]"
    by (auto simp: length_Suc_conv numeral_3_eq_3)
  from sz have "length (fs ! 0) = 4" "length (fs ! 1) = 3" "length (fs ! 2) = 3"
    by (simp_all add: len)
  with abc have "length a = 4 \<and> length b = 3 \<and> length c = 3" by simp
  with fs abc show "\<exists>a b c. array_split y 3 = Inr [a, b, c]
           \<and> length a = 4 \<and> length b = 3 \<and> length c = 3" by blast
next
  assume "length z = 10"
  then show "cross_validation z 0 5 = Inr (drop 2 z, take 2 z)"
    by (rule cross_validation_10_5)
next
  show "cross_validation [p0, p1, p2, p3, p4, p5, p6, p7, p8, p9] 0 5
        = Inr ([p2, p3, p4, p5, p6, p7, p8, p9], [p0, p1])"
    using cross_validation_10_5 [of "[p0, p1, p2, p3, p4, p5, p6, p7, p8, p9]"] by simp
qed

text \<open>
  The instance of C3 at ten labelled paths and three folds.
\<close>

theorem cross_validation_chunks_witness:
  "(1::int) \<le> 3 \<and> length ten_paths = 10
   \<and> (\<exists>folders. array_split ten_paths 3 = Inr folders
         \<and> length folders = nat 3
         \<and> concat folders = ten_paths
         \<and> (\<forall>k<nat 3. length (folders ! k) =
               length ten_paths div nat 3 + (if k < length ten_paths mod nat 3 then 1 else 0))
         \<and> (\<forall>j k. j \<le> k \<and> k < nat 3 \<longrightarrow>
               length (folders ! k) \<le> length (folders ! j)
               \<and> length (folders ! j) \<le> length (folders ! k) + 1)
         \<and> (\<forall>fold_idx. 2 \<le> (3::int) \<and> 0 \<le> fold_idx \<and> fold_idx < 3 \<longrightarrow>
               cross_validation ten_paths fold_idx 3 =
                 Inr (concat (take (nat fold_idx) folders @ drop (Suc (nat fold_idx)) folders),
                      folders ! nat fold_idx)))
   \<and> (\<exists>a b c. array_split ten_paths 3 = Inr [a, b, c]
           \<and> length a = 4 \<and> length b = 3 \<and> length c = 3)
   \<and> cross_validation ten_paths 0 5 = Inr (drop 2 ten_paths, take 2 ten_paths)"
proof -
  have a: "(1::int) \<le> 3" by simp
  have b: "length ten_paths = 10" by (simp add: ten_paths_def)
  note t = cross_validation_chunks [where n_folds = 3 and x = ten_paths and y = ten_paths
      and z = ten_paths and ?p0.0 = "0::nat" and ?p1.0 = "0::nat" and ?p2.0 = "0::nat"
      and ?p3.0 = "0::nat" and ?p4.0 = "0::nat" and ?p5.0 = "0::nat" and ?p6.0 = "0::nat"
      and ?p7.0 = "0::nat" and ?p8.0 = "0::nat" and ?p9.0 = "0::nat"]
  note t1 = t [THEN conjunct1, THEN mp, OF a]
  note t2 = t [THEN conjunct2, THEN conjunct1, THEN mp, OF b]
  note t3 = t [THEN conjunct2, THEN conjunct2, THEN conjunct1, THEN mp, OF b]
  show ?thesis
    using a b t1 t2 t3 by (intro conjI)
qed

text \<open>
  Claim C9.  \<open>cross_validation\<close> reads nothing but its arguments (no random choice, no
  state), so it is a function of them: two calls with the same input and the same parameters
  yield identical results.  With valid parameters (and at least two folds) both are the pair
  given by two division points, which depend on the length of the input and the parameters
  only: the held-out set is the slice between them, the training set what lies before and
  after, in the input's order.
\<close>

theorem cross_validation_deterministic:
  assumes "r1 = cross_validation x fold_idx n_folds"
    and "r2 = cross_validation x fold_idx n_folds"
  shows "r1 = r2
    \<and> (2 \<le> n_folds \<and> 0 \<le> fold_idx \<and> fold_idx < n_folds \<longrightarrow>
         r1 = Inr (take (div_point (length x) (nat n_folds) (nat fold_idx)) x
                     @ drop (div_point (length x) (nat n_folds) (Suc (nat fold_idx))) x,
                   slice x (div_point (length x) (nat n_folds) (nat fold_idx))
                           (div_point (length x) (nat n_folds) (Suc (nat fold_idx)))))"
  using assms by (simp add: cross_validation_eq)

text \<open>
  The instance of C9 at three paths, two folds and fold index 0.
\<close>

theorem cross_validation_deterministic_witness:
  "Inr ([''c''], [''a'', ''b'']) = cross_validation [''a'', ''b'', ''c''] 0 2
   \<and> cross_validation [''a'', ''b'', ''c''] 0 2 = Inr ([''c''], [''a'', ''b''])
   \<and> (2::int) \<le> 2 \<and> (0::int) \<le> 0 \<and> (0::int) < 2
   \<and> cross_validation [''a'', ''b'', ''c''] 0 2 =
        Inr (take (div_point (length [''a'', ''b'', ''c'']) (nat 2) (nat 0)) [''a'', ''b'', ''c'']
               @ drop (div_point (length [''a'', ''b'', ''c'']) (nat 2) (Suc (nat 0)))
                   [''a'', ''b'', ''c''],
             slice [''a'', ''b'', ''c''] (div_point (length [''a'', ''b'', ''c'']) (nat 2) (nat 0))
               (div_point (length [''a'', ''b'', ''c'']) (nat 2) (Suc (nat 0))))"
proof -
  have e: "Inr ([''c''], [''a'', ''b'']) = cross_validation [''a'', ''b'', ''c''] 0 2"
    using cross_validation_eq [of 2 0 "[''a'', ''b'', ''c'']"]
    by (simp add: div_point_def section_sizes_def slice_def)
  have v: "(2::int) \<le> 2 \<and> (0::int) \<le> 0 \<and> (0::int) < 2" by simp
  note t = cross_validation_deterministic [OF refl e]
  from t have a: "cross_validation [''a'', ''b'', ''c''] 0 2 = Inr ([''c''], [''a'', ''b''])"
    by (rule conjunct1)
  note b = t [THEN conjunct2, THEN mp, OF v]
  show ?thesis
    using e a v b by (intro conjI) simp_all
qed

section \<open>Properties of the \<open>Dataset\<close> class\<close>

subsection \<open>The split a \<open>Dataset\<close> holds\<close>

text \<open>
  When \<open>cross_validation\<close> returns, the index was in range and there were at least two
  folds; the two outputs together are as long as the input.
\<close>

lemma cross_validation_Inr:
  assumes r: "cross_validation x fold_idx n_folds = Inr (train, held_out)"
  shows "2 \<le> n_folds \<and> 0 \<le> fold_idx \<and> fold_idx < n_folds"
proof -
  have rng: "0 \<le> fold_idx" "fold_idx < n_folds"
    using r by (auto simp: cross_validation_def split: if_splits)
  have "n_folds \<noteq> 1"
  proof
    assume one: "n_folds = 1"
    with rng have i: "fold_idx = 0" by simp
    from array_split_props [of 1 x] obtain fs where
      fs: "array_split x 1 = Inr fs" and len: "length fs = 1" by auto
    from len have "take (nat 0) fs @ drop (nat (0 + 1)) fs = []" by simp
    then have "cross_validation x 0 1 = Inl (ValueError Need_one_array)"
      using fs by (simp add: cross_validation_def concatenate_def)
    with r one i show False by simp
  qed
  with rng show ?thesis by simp
qed

lemma cross_validation_lengths:
  assumes r: "cross_validation x fold_idx n_folds = Inr (train, held_out)"
  shows "length train + length held_out = length x"
proof -
  from cross_validation_Inr [OF r] have v: "2 \<le> n_folds" "0 \<le> fold_idx" "fold_idx < n_folds"
    by simp_all
  define lo where "lo = div_point (length x) (nat n_folds) (nat fold_idx)"
  define hi where "hi = div_point (length x) (nat n_folds) (Suc (nat fold_idx))"
  have le: "lo \<le> hi"
    unfolding lo_def hi_def using v by (intro div_point_mono) simp_all
  have x: "take lo x @ slice x lo hi @ drop hi x = x"
    using le by (rule take_slice_drop)
  have "cross_validation x fold_idx n_folds = Inr (take lo x @ drop hi x, slice x lo hi)"
    unfolding lo_def hi_def using v by (rule cross_validation_eq)
  with r have t: "train = take lo x @ drop hi x" and h: "held_out = slice x lo hi" by simp_all
  have "length (take lo x @ slice x lo hi @ drop hi x) = length x" using x by simp
  then show ?thesis unfolding t h by simp
qed

text \<open>The sample datasets are what \<open>__init__\<close> constructs from small directories.\<close>

lemma sample_split:
  "cross_validation [''/data/a'', ''/data/b'', ''/data/c''] 0 2
     = Inr ([''/data/c''], [''/data/a'', ''/data/b''])"
  using cross_validation_eq [of 2 0 "[''/data/a'', ''/data/b'', ''/data/c'']"]
  by (simp add: div_point_def section_sizes_def slice_def)

lemma sample_dataset_init:
  "Dataset_init [''a'', ''b'', ''c''] ''/data'' 2 0 2 0 1 (Some sample_params) = Inr sample_dataset"
  by (simp add: Dataset_init_def os_path_join_def sample_split sample_dataset_def
      sample_params_def if_else_def)

lemma sample_dataset_fields:
  "p_train sample_dataset = [''/data/c'']"
  "p_eval sample_dataset = [''/data/a'', ''/data/b'']"
  "p_num_hpus sample_dataset = 4"
  "p_hpu_id sample_dataset = 1"
  "p_batch_size sample_dataset = 2"
  "p_seed sample_dataset = 0"
  "p_xshape sample_dataset = [240, 240, 155, 4]"
  "p_yshape sample_dataset = [240, 240, 155]"
  "augment (params sample_dataset)"
  by (simp_all add: sample_dataset_def sample_params_def)

lemma empty_eval_split:
  "cross_validation [''/data/a''] 1 5 = Inr ([''/data/a''], [])"
  using cross_validation_eq [of 5 1 "[''/data/a'']"]
  by (simp add: div_point_def section_sizes_def slice_def)

lemma empty_train_split:
  "cross_validation [''/data/a''] 0 2 = Inr ([], [''/data/a''])"
  using cross_validation_eq [of 2 0 "[''/data/a'']"]
  by (simp add: div_point_def section_sizes_def slice_def)

lemma empty_eval_dataset_init:
  "Dataset_init [''a''] ''/data'' 2 1 5 0 1 (Some sample_params) = Inr empty_eval_dataset"
  by (simp add: Dataset_init_def os_path_join_def empty_eval_split empty_eval_dataset_def
      sample_params_def if_else_def Let_def)

lemma empty_train_dataset_init:
  "Dataset_init [''a''] ''/data'' 2 0 2 0 1 (Some sample_params) = Inr empty_train_dataset"
  by (simp add: Dataset_init_def os_path_join_def empty_train_split empty_train_dataset_def
      sample_params_def if_else_def Let_def)

text \<open>
  Claim C10.  For every constructed \<open>Dataset\<close>, \<open>test_size\<close> and \<open>eval_size\<close> return the
  same value, the length of the one held-out split, and \<open>train_size + eval_size\<close> is the
  number of entries listed in the data directory at construction.
\<close>

theorem Dataset_sizes:
  "Dataset_init listing data_dir batch_size fold_idx n_folds seed pipeline_factor ps = Inr self
   \<Longrightarrow> test_size self = eval_size self
       \<and> train_size self + eval_size self = length listing"
proof -
  assume i: "Dataset_init listing data_dir batch_size fold_idx n_folds seed pipeline_factor ps
    = Inr self"
  let ?folders = "map (\<lambda>path. os_path_join data_dir path) listing"
  from i obtain train held_out where
    cv: "cross_validation ?folders fold_idx n_folds = Inr (train, held_out)"
    and t: "p_train self = train" and e: "p_eval self = held_out"
    by (auto simp: Dataset_init_def Let_def split: sum.splits option.splits)
  from cross_validation_lengths [OF cv] have "length train + length held_out = length listing"
    by simp
  then show ?thesis by (simp add: test_size_def eval_size_def train_size_def t e)
qed

text \<open>The instance of C10 at a directory of three entries.\<close>

theorem Dataset_sizes_witness:
  "Dataset_init [''a'', ''b'', ''c''] ''/data'' 2 0 2 0 1 (Some sample_params) = Inr sample_dataset
   \<and> test_size sample_dataset = eval_size sample_dataset
   \<and> train_size sample_dataset + eval_size sample_dataset = length [''a'', ''b'', ''c'']"
  using sample_dataset_init Dataset_sizes [OF sample_dataset_init] by blast

subsection \<open>What the builders return\<close>

lemma train_fn_returned:
  assumes "p_train self \<noteq> []"
  shows "train_fn hpu self = Returned
     ([TFRecordDataset (p_train self),
       Shard (p_num_hpus self) (p_hpu_id self),
       Cache,
       Shuffle (p_batch_size self * 8) (p_seed self),
       Repeat None,
       Map_op Parse AUTOTUNE,
       Map_op (Apply_transforms Of_record
         [Some (RandomCrop3D (128, 128, 128)),
          if augment (params self) then Some RandomHorizontalFlip else None,
          Some (Cast Float32),
          Some NormalizeImages,
          if augment (params self) then Some RandomBrightnessCorrection else None,
          Some (OneHotLabels 4)]) AUTOTUNE,
       Batch (p_batch_size self) True]
      @ [if hpu \<noteq> [] then Prefetch_to_device (hd hpu) else Prefetch AUTOTUNE])"
  using assms by (simp add: train_fn_def prefetch_def Let_def)

lemma train_chain:
  assumes "p_train self \<noteq> []"
  shows "transform_chain (built (train_fn hpu self)) =
       [RandomCrop3D (128, 128, 128)]
       @ (if augment (params self) then [RandomHorizontalFlip] else [])
       @ [Cast Float32, NormalizeImages]
       @ (if augment (params self) then [RandomBrightnessCorrection] else [])
       @ [OneHotLabels 4]"
  using assms by (simp add: train_fn_def prefetch_def Let_def transform_chain_def)

lemma train_cache_upstream:
  assumes "p_train self \<noteq> []"
  shows "upstream Cache (built (train_fn hpu self))
           = [TFRecordDataset (p_train self), Shard (p_num_hpus self) (p_hpu_id self)]"
  by (simp add: train_fn_returned [OF assms] upstream_def)



lemma test_fn_returned:
  assumes "p_eval self \<noteq> []"
  shows "test_fn hpu self count' drop_remainder = Returned
     ([TFRecordDataset (p_eval self),
       Repeat (Some count'),
       Map_op Parse_x AUTOTUNE,
       Map_op (Apply_test_transforms
         [Some (CenterCrop (224, 224, 155)),
          Some (Cast Float32),
          Some NormalizeImages,
          Some (PadXYZ (Some (224, 224, 160)))]) AUTOTUNE,
       Batch (p_batch_size self) drop_remainder]
      @ [if hpu \<noteq> [] then Prefetch_to_device (hd hpu) else Prefetch AUTOTUNE])"
  using assms by (simp add: test_fn_def prefetch_def Let_def)


lemma test_chain:
  assumes "p_eval self \<noteq> []"
  shows "transform_chain (built (test_fn hpu self count' drop_remainder)) =
     [CenterCrop (224, 224, 155), Cast Float32, NormalizeImages, PadXYZ (Some (224, 224, 160))]"
  by (simp add: test_fn_returned [OF assms] transform_chain_def)


text \<open>The non-empty-split assertions, and what had been constructed when they fail.\<close>

lemma train_fn_raises:
  "p_train self = [] \<Longrightarrow>
   train_fn hpu self = Raised (AssertionError ''Training data not found.'') []"
  by (simp add: train_fn_def)

lemma eval_fn_raises:
  "p_eval self = [] \<Longrightarrow>
   eval_fn hpu self =
     Raised (AssertionError ''Evaluation data not found. Did you specify --fold flag?'')
       [TFRecordDataset []]"
  by (simp add: eval_fn_def)

lemma test_fn_raises:
  "p_eval self = [] \<Longrightarrow>
   test_fn hpu self count' drop_remainder =
     Raised (AssertionError ''Evaluation data not found. Did you specify --fold flag?'')
       [TFRecordDataset []]"
  by (simp add: test_fn_def)

subsection \<open>The claims about the pipelines\<close>

text \<open>
  Claim C4, at its failing input.  With no training path, \<open>train_fn\<close> raises the assertion
  failure \<open>Training data not found.\<close> before anything is constructed.  With an empty
  held-out split (one entry, five folds, fold 1), \<open>eval_fn\<close> and \<open>test_fn\<close> raise the
  assertion failure that names \<open>Evaluation data not found\<close>, but only after the
  \<open>TFRecordDataset\<close> over the empty split has been constructed: there the assertion is not
  checked before any pipeline construction.
\<close>

theorem assertion_after_source:
  "Dataset_init [''a''] ''/data'' 2 0 2 0 1 (Some sample_params) = Inr empty_train_dataset
   \<and> train_fn [] empty_train_dataset = Raised (AssertionError ''Training data not found.'') []
   \<and> Dataset_init [''a''] ''/data'' 2 1 5 0 1 (Some sample_params) = Inr empty_eval_dataset
   \<and> eval_fn [] empty_eval_dataset =
       Raised (AssertionError ''Evaluation data not found. Did you specify --fold flag?'')
         [TFRecordDataset []]
   \<and> test_fn [] empty_eval_dataset 1 False =
       Raised (AssertionError ''Evaluation data not found. Did you specify --fold flag?'')
         [TFRecordDataset []]"
proof -
  have e: "p_eval empty_eval_dataset = []" and t: "p_train empty_train_dataset = []"
    by (simp_all add: empty_eval_dataset_def empty_train_dataset_def)
  show ?thesis
    using empty_train_dataset_init empty_eval_dataset_init train_fn_raises [OF t]
      eval_fn_raises [OF e] test_fn_raises [OF e]
    by blast
qed

text \<open>
  Claim C5, as amended.  When training paths were discovered, \<open>train_fn\<close> chains the
  operators in exactly this order: the record source over the training paths, shard by
  worker count and worker id, cache, shuffle with a buffer of \<open>batch_size * 8\<close> and the
  configured seed, repeat indefinitely, parse, map the transform chain (random crop to
  \<open>128\<^sup>3\<close>, optional horizontal flip, cast to float, normalize with the record's mean and
  stdev, optional brightness jitter, one-hot encoding of 4 classes), batch with the remainder
  dropped, prefetch.  The cache stage comes before parsing: what it caches are the serialized
  records of the sharded source, not decoded ones.
\<close>

theorem train_fn_pipeline:
  assumes "p_train self \<noteq> []"
  shows "train_fn hpu self = Returned
     ([TFRecordDataset (p_train self),
       Shard (p_num_hpus self) (p_hpu_id self),
       Cache,
       Shuffle (p_batch_size self * 8) (p_seed self),
       Repeat None,
       Map_op Parse AUTOTUNE,
       Map_op (Apply_transforms Of_record
         [Some (RandomCrop3D (128, 128, 128)),
          if augment (params self) then Some RandomHorizontalFlip else None,
          Some (Cast Float32),
          Some NormalizeImages,
          if augment (params self) then Some RandomBrightnessCorrection else None,
          Some (OneHotLabels 4)]) AUTOTUNE,
       Batch (p_batch_size self) True]
      @ [if hpu \<noteq> [] then Prefetch_to_device (hd hpu) else Prefetch AUTOTUNE])
    \<and> transform_chain (built (train_fn hpu self)) =
       [RandomCrop3D (128, 128, 128)]
       @ (if augment (params self) then [RandomHorizontalFlip] else [])
       @ [Cast Float32, NormalizeImages]
       @ (if augment (params self) then [RandomBrightnessCorrection] else [])
       @ [OneHotLabels 4]
    \<and> upstream Cache (built (train_fn hpu self))
         = [TFRecordDataset (p_train self), Shard (p_num_hpus self) (p_hpu_id self)]
    \<and> \<not> decoded (upstream Cache (built (train_fn hpu self)))"
proof (intro conjI)
  show "\<not> decoded (upstream Cache (built (train_fn hpu self)))"
    by (simp add: train_cache_upstream [OF assms] decoded_def)
qed (rule train_fn_returned [OF assms] train_chain [OF assms] train_cache_upstream [OF assms])+

text \<open>The instance of C5 at the sample dataset with one accelerator device.\<close>

theorem train_fn_pipeline_witness:
  "p_train sample_dataset \<noteq> []
   \<and> train_fn [''/device:HPU:0''] sample_dataset = Returned
       [TFRecordDataset [''/data/c''],
        Shard 4 1,
        Cache,
        Shuffle 16 0,
        Repeat None,
        Map_op Parse AUTOTUNE,
        Map_op (Apply_transforms Of_record
          [Some (RandomCrop3D (128, 128, 128)),
           Some RandomHorizontalFlip,
           Some (Cast Float32),
           Some NormalizeImages,
           Some RandomBrightnessCorrection,
           Some (OneHotLabels 4)]) AUTOTUNE,
        Batch 2 True,
        Prefetch_to_device ''/device:HPU:0'']
   \<and> transform_chain (built (train_fn [''/device:HPU:0''] sample_dataset)) =
       [RandomCrop3D (128, 128, 128), RandomHorizontalFlip, Cast Float32, NormalizeImages,
        RandomBrightnessCorrection, OneHotLabels 4]
   \<and> upstream Cache (built (train_fn [''/device:HPU:0''] sample_dataset))
       = [TFRecordDataset [''/data/c''], Shard 4 1]
   \<and> \<not> decoded (upstream Cache (built (train_fn [''/device:HPU:0''] sample_dataset)))"
proof -
  have t: "p_train sample_dataset \<noteq> []" by (simp add: sample_dataset_fields)
  note r = train_fn_pipeline [OF t, of "[''/device:HPU:0'']"]
  have a: "train_fn [''/device:HPU:0''] sample_dataset = Returned
       [TFRecordDataset [''/data/c''],
        Shard 4 1,
        Cache,
        Shuffle 16 0,
        Repeat None,
        Map_op Parse AUTOTUNE,
        Map_op (Apply_transforms Of_record
          [Some (RandomCrop3D (128, 128, 128)),
           Some RandomHorizontalFlip,
           Some (Cast Float32),
           Some NormalizeImages,
           Some RandomBrightnessCorrection,
           Some (OneHotLabels 4)]) AUTOTUNE,
        Batch 2 True,
        Prefetch_to_device ''/device:HPU:0'']"
    using r [THEN conjunct1] by (simp add: sample_dataset_fields)
  have b: "transform_chain (built (train_fn [''/device:HPU:0''] sample_dataset)) =
       [RandomCrop3D (128, 128, 128), RandomHorizontalFlip, Cast Float32, NormalizeImages,
        RandomBrightnessCorrection, OneHotLabels 4]"
    using r [THEN conjunct2, THEN conjunct1] by (simp add: sample_dataset_fields)
  have c: "upstream Cache (built (train_fn [''/device:HPU:0''] sample_dataset))
       = [TFRecordDataset [''/data/c''], Shard 4 1]"
    using r [THEN conjunct2, THEN conjunct2, THEN conjunct1]
    by (simp add: sample_dataset_fields)
  have d: "\<not> decoded (upstream Cache (built (train_fn [''/device:HPU:0''] sample_dataset)))"
    using r by blast
  show ?thesis
    using t a b c d by blast
qed

text \<open>
  Claim C5 as stated says that the cache stage holds decoded (parsed) records.  In the
  pipeline of the sample dataset no parsing stage lies before the cache.
\<close>

theorem train_fn_pipeline_counterexample:
  "\<not> decoded (upstream Cache (built (train_fn [] sample_dataset)))"
  by (simp add: train_fn_def prefetch_def Let_def sample_dataset_def upstream_def decoded_def)




subsection \<open>Record parsing\<close>

lemma Dataset_init_shapes:
  "Dataset_init listing data_dir batch_size fold_idx n_folds seed pipeline_factor ps = Inr self
   \<Longrightarrow> p_xshape self = [240, 240, 155, 4] \<and> p_yshape self = [240, 240, 155]"
  by (auto simp: Dataset_init_def Let_def split: sum.splits option.splits)

lemma parse_single_example_fields:
  assumes "serialized ''X'' = Some (BytesList [xb])"
    and "serialized ''Y'' = Some (BytesList [yb])"
    and "serialized ''mean'' = Some (FloatList m)" and "length m = 4"
    and "serialized ''stdev'' = Some (FloatList s)" and "length s = 4"
  shows "parse_single_example serialized =
     Inr (xb, yb, \<lparr> shape = [4], data = m \<rparr>, \<lparr> shape = [4], data = s \<rparr>)"
  using assms by (simp add: parse_single_example_def fixed_len_string_def fixed_len_float_def)

lemma parse_X_fails:
  assumes x: "serialized ''X'' = Some (BytesList [xb])"
    and n: "length xb \<noteq> prod_list (p_xshape self)"
  shows "\<exists>e. parse self serialized = Inl e"
proof (cases "parse_single_example serialized")
  case (Inl e)
  then show ?thesis by (simp add: parse_def)
next
  case (Inr r)
  obtain X Y mean stdev where r: "r = (X, Y, mean, stdev)" by (cases r) auto
  from Inr r x have "X = xb"
    by (auto simp: parse_single_example_def fixed_len_string_def split: sum.splits)
  with Inr r n show ?thesis
    by (simp add: parse_def reshape_def decode_raw_def)
qed

lemma short_record_fields:
  "short_record ''X'' = Some (BytesList [replicate 5 0])"
  "short_record ''Y'' = Some (BytesList [replicate 8928000 1])"
  "short_record ''mean'' = Some (FloatList [1, 2, 3, 4])"
  "short_record ''stdev'' = Some (FloatList [5, 6, 7, 8])"
  by (simp_all add: short_record_def)

lemma good_record_fields:
  "good_record ''X'' = Some (BytesList [replicate 35712000 0])"
  "good_record ''Y'' = Some (BytesList [replicate 8928000 1])"
  "good_record ''mean'' = Some (FloatList [1, 2, 3, 4])"
  "good_record ''stdev'' = Some (FloatList [5, 6, 7, 8])"
  by (simp_all add: good_record_def)

text \<open>
  Claim C8.  For every constructed \<open>Dataset\<close>: parsing a record whose \<open>X\<close> field does not
  hold exactly \<open>240 \<times> 240 \<times> 155 \<times> 4\<close> bytes fails, and when the record has the other
  fields in the stored format the failure is the shape mismatch of the reshape of \<open>X\<close>; a
  record with \<open>X\<close> and \<open>Y\<close> of the right lengths and 4 floats each in \<open>mean\<close> and
  \<open>stdev\<close> parses into tensors of shapes \<open>240 \<times> 240 \<times> 155 \<times> 4\<close> and
  \<open>240 \<times> 240 \<times> 155\<close> over \<open>uint8\<close> and two vectors of 4 floats.
\<close>

theorem parse_shapes:
  assumes init:
    "Dataset_init listing data_dir batch_size fold_idx n_folds seed pipeline_factor ps = Inr self"
  shows
   "(serialized ''X'' = Some (BytesList [xb]) \<and> length xb \<noteq> 240 * 240 * 155 * 4
       \<longrightarrow> (\<exists>e. parse self serialized = Inl e))
    \<and> (serialized ''X'' = Some (BytesList [xb]) \<and> length xb \<noteq> 240 * 240 * 155 * 4
        \<and> serialized ''Y'' = Some (BytesList [yb])
        \<and> serialized ''mean'' = Some (FloatList m) \<and> length m = 4
        \<and> serialized ''stdev'' = Some (FloatList s) \<and> length s = 4
       \<longrightarrow> parse self serialized =
             Inl (InvalidArgumentError (Reshape_mismatch (length xb) [240, 240, 155, 4])))
    \<and> (serialized ''X'' = Some (BytesList [xb]) \<and> length xb = 240 * 240 * 155 * 4
        \<and> serialized ''Y'' = Some (BytesList [yb]) \<and> length yb = 240 * 240 * 155
        \<and> serialized ''mean'' = Some (FloatList m) \<and> length m = 4
        \<and> serialized ''stdev'' = Some (FloatList s) \<and> length s = 4
       \<longrightarrow> parse self serialized =
             Inr (\<lparr> shape = [240, 240, 155, 4], data = xb \<rparr>,
                  \<lparr> shape = [240, 240, 155], data = yb \<rparr>,
                  \<lparr> shape = [4], data = m \<rparr>,
                  \<lparr> shape = [4], data = s \<rparr>))"
proof -
  from Dataset_init_shapes [OF init] have
    xs: "p_xshape self = [240, 240, 155, 4]" and ys: "p_yshape self = [240, 240, 155]"
    by simp_all
  have px: "prod_list (p_xshape self) = 240 * 240 * 155 * 4"
    and py: "prod_list (p_yshape self) = 240 * 240 * 155"
    by (simp_all add: xs ys)
  have a: "\<exists>e. parse self serialized = Inl e"
    if "serialized ''X'' = Some (BytesList [xb]) \<and> length xb \<noteq> 240 * 240 * 155 * 4"
    using that px by (intro parse_X_fails [of serialized xb]) simp_all
  have b: "parse self serialized =
             Inl (InvalidArgumentError (Reshape_mismatch (length xb) [240, 240, 155, 4]))"
    if "serialized ''X'' = Some (BytesList [xb]) \<and> length xb \<noteq> 240 * 240 * 155 * 4
        \<and> serialized ''Y'' = Some (BytesList [yb])
        \<and> serialized ''mean'' = Some (FloatList m) \<and> length m = 4
        \<and> serialized ''stdev'' = Some (FloatList s) \<and> length s = 4"
  proof -
    from that have "parse_single_example serialized =
        Inr (xb, yb, \<lparr> shape = [4], data = m \<rparr>, \<lparr> shape = [4], data = s \<rparr>)"
      by (intro parse_single_example_fields) simp_all
    moreover from that px have "length xb \<noteq> prod_list (p_xshape self)" by simp
    ultimately show ?thesis
      by (simp add: parse_def reshape_def decode_raw_def xs)
  qed
  have c: "parse self serialized =
             Inr (\<lparr> shape = [240, 240, 155, 4], data = xb \<rparr>,
                  \<lparr> shape = [240, 240, 155], data = yb \<rparr>,
                  \<lparr> shape = [4], data = m \<rparr>,
                  \<lparr> shape = [4], data = s \<rparr>)"
    if "serialized ''X'' = Some (BytesList [xb]) \<and> length xb = 240 * 240 * 155 * 4
        \<and> serialized ''Y'' = Some (BytesList [yb]) \<and> length yb = 240 * 240 * 155
        \<and> serialized ''mean'' = Some (FloatList m) \<and> length m = 4
        \<and> serialized ''stdev'' = Some (FloatList s) \<and> length s = 4"
  proof -
    from that have "parse_single_example serialized =
        Inr (xb, yb, \<lparr> shape = [4], data = m \<rparr>, \<lparr> shape = [4], data = s \<rparr>)"
      by (intro parse_single_example_fields) simp_all
    moreover from that px have "length xb = prod_list (p_xshape self)" by simp
    moreover from that py have "length yb = prod_list (p_yshape self)" by simp
    ultimately show ?thesis
      by (simp add: parse_def reshape_def decode_raw_def xs ys)
  qed
  from a b c show ?thesis by blast
qed

text \<open>
  The instance of C8 at the sample dataset, the record with five bytes in \<open>X\<close> and the
  record in the stored format.
\<close>

theorem parse_shapes_witness:
  "Dataset_init [''a'', ''b'', ''c''] ''/data'' 2 0 2 0 1 (Some sample_params) = Inr sample_dataset
   \<and> short_record ''X'' = Some (BytesList [replicate 5 0])
   \<and> length (replicate 5 (0::8 word)) \<noteq> 240 * 240 * 155 * 4
   \<and> parse sample_dataset short_record =
        Inl (InvalidArgumentError (Reshape_mismatch 5 [240, 240, 155, 4]))
   \<and> good_record ''X'' = Some (BytesList [replicate 35712000 0])
   \<and> length (replicate 35712000 (0::8 word)) = 240 * 240 * 155 * 4
   \<and> good_record ''Y'' = Some (BytesList [replicate 8928000 1])
   \<and> length (replicate 8928000 (1::8 word)) = 240 * 240 * 155
   \<and> parse sample_dataset good_record =
        Inr (\<lparr> shape = [240, 240, 155, 4], data = replicate 35712000 0 \<rparr>,
             \<lparr> shape = [240, 240, 155], data = replicate 8928000 1 \<rparr>,
             \<lparr> shape = [4], data = [1, 2, 3, 4] \<rparr>,
             \<lparr> shape = [4], data = [5, 6, 7, 8] \<rparr>)"
proof -
  have l5: "length (replicate 5 (0::8 word)) \<noteq> 240 * 240 * 155 * 4" by simp
  have lx: "length (replicate 35712000 (0::8 word)) = 240 * 240 * 155 * 4" by simp
  have ly: "length (replicate 8928000 (1::8 word)) = 240 * 240 * 155" by simp
  have l4: "length [1, 2, 3, 4 :: int] = 4" "length [5, 6, 7, 8 :: int] = 4" by simp_all
  note bad = parse_shapes [OF sample_dataset_init, where serialized = short_record
      and xb = "replicate 5 0" and yb = "replicate 8928000 1"
      and m = "[1, 2, 3, 4]" and s = "[5, 6, 7, 8]"]
  note good = parse_shapes [OF sample_dataset_init, where serialized = good_record
      and xb = "replicate 35712000 0" and yb = "replicate 8928000 1"
      and m = "[1, 2, 3, 4]" and s = "[5, 6, 7, 8]"]
  have "parse sample_dataset short_record = Inl (InvalidArgumentError
      (Reshape_mismatch (length (replicate 5 (0::8 word))) [240, 240, 155, 4]))"
    using bad [THEN conjunct2, THEN conjunct1] short_record_fields l5 l4 by blast
  then have b: "parse sample_dataset short_record =
        Inl (InvalidArgumentError (Reshape_mismatch 5 [240, 240, 155, 4]))"
    by simp
  have g: "parse sample_dataset good_record =
        Inr (\<lparr> shape = [240, 240, 155, 4], data = replicate 35712000 0 \<rparr>,
             \<lparr> shape = [240, 240, 155], data = replicate 8928000 1 \<rparr>,
             \<lparr> shape = [4], data = [1, 2, 3, 4] \<rparr>,
             \<lparr> shape = [4], data = [5, 6, 7, 8] \<rparr>)"
    using good [THEN conjunct2, THEN conjunct2] good_record_fields lx ly l4 by blast
  show ?thesis
    using sample_dataset_init short_record_fields(1) l5 b good_record_fields(1,2) lx ly g
    by blast
qed

subsection \<open>The test pipeline\<close>

text \<open>What the \<open>repeat\<close> and parsing stages of the test pipeline do.\<close>

lemma test_repetitions:
  assumes "p_eval self \<noteq> []"
  shows "repetitions (built (test_fn hpu self count' drop_remainder)) = [repeat_op (Some count')]"
  by (simp add: test_fn_returned [OF assms] repetitions_def List.map_filter_simps)

lemma repeat_op_int64:
  "- (2 ^ 63) \<le> n \<Longrightarrow> n < 2 ^ 63 \<Longrightarrow>
   repeat_op (Some n) = Inr (if n < 0 then Endless else Times (nat n))"
  by (simp add: repeat_op_def)

lemma test_parse_stages:
  assumes "p_eval self \<noteq> []"
  shows "parse_stages self (built (test_fn hpu self count' drop_remainder)) serialized =
     [case parse_x self serialized of
        Inl e \<Rightarrow> Inl e
      | Inr (x, mean, stdev) \<Rightarrow> Inr (Unlabelled x mean stdev)]"
  by (simp add: test_fn_returned [OF assms] parse_stages_def List.map_filter_simps)

lemma parse_x_fields:
  assumes "serialized ''X'' = Some (BytesList [xb])"
    and "length xb = prod_list (p_xshape self)"
    and "serialized ''Y'' = Some (BytesList [yb])"
    and "serialized ''mean'' = Some (FloatList m)" and "length m = 4"
    and "serialized ''stdev'' = Some (FloatList s)" and "length s = 4"
  shows "parse_x self serialized =
     Inr (\<lparr> shape = p_xshape self, data = xb \<rparr>,
          \<lparr> shape = [4], data = m \<rparr>, \<lparr> shape = [4], data = s \<rparr>)"
proof -
  from assms have "parse_single_example serialized =
      Inr (xb, yb, \<lparr> shape = [4], data = m \<rparr>, \<lparr> shape = [4], data = s \<rparr>)"
    by (intro parse_single_example_fields) simp_all
  with assms(2) show ?thesis
    by (simp add: parse_x_def reshape_def decode_raw_def)
qed

lemma parse_x_needs_Y:
  assumes "serialized ''X'' = Some (BytesList [xb])" and "serialized ''Y'' = None"
  shows "parse_x self serialized = Inl (InvalidArgumentError (Feature_missing ''Y''))"
  using assms by (simp add: parse_x_def parse_single_example_def fixed_len_string_def)

lemma short_label_record_fields:
  "short_label_record ''X'' = Some (BytesList [replicate 35712000 0])"
  "short_label_record ''Y'' = Some (BytesList [replicate 3 1])"
  "short_label_record ''mean'' = Some (FloatList [1, 2, 3, 4])"
  "short_label_record ''stdev'' = Some (FloatList [5, 6, 7, 8])"
  by (simp_all add: short_label_record_def)

lemma no_label_record_fields:
  "no_label_record ''X'' = Some (BytesList [replicate 35712000 0])"
  "no_label_record ''Y'' = None"
  by (simp_all add: no_label_record_def)

text \<open>
  Claim C7, as amended.  For every \<open>drop_remainder\<close> and every \<open>count\<close> that fits a signed
  64-bit integer, the test pipeline (built when the held-out split is not empty) reads the
  held-out records, repeats them \<open>count\<close> times when \<open>count \<ge> 0\<close> and endlessly when
  \<open>count\<close> is negative, parses the inputs only, applies the transform chain center crop to
  \<open>224 \<times> 224 \<times> 155\<close>, cast to float, normalize, pad to \<open>224 \<times> 224 \<times> 160\<close>, batches
  with the caller's remainder policy and prefetches.  Parsing the inputs only is what
  \<open>parse_x\<close> does: for a record with \<open>X\<close> of the right length, a \<open>Y\<close> of any length and 4
  floats each in \<open>mean\<close> and \<open>stdev\<close>, the parsing stage yields the volume, the mean and
  the stdev and no label; the \<open>Y\<close> field is not decoded, but a record without it fails to
  parse.
\<close>

theorem test_fn_pipeline:
  assumes "p_eval self \<noteq> []" and "- (2 ^ 63) \<le> count'" and "count' < 2 ^ 63"
  shows "test_fn hpu self count' drop_remainder = Returned
     ([TFRecordDataset (p_eval self),
       Repeat (Some count'),
       Map_op Parse_x AUTOTUNE,
       Map_op (Apply_test_transforms
         [Some (CenterCrop (224, 224, 155)),
          Some (Cast Float32),
          Some NormalizeImages,
          Some (PadXYZ (Some (224, 224, 160)))]) AUTOTUNE,
       Batch (p_batch_size self) drop_remainder]
      @ [if hpu \<noteq> [] then Prefetch_to_device (hd hpu) else Prefetch AUTOTUNE])
   \<and> repetitions (built (test_fn hpu self count' drop_remainder))
       = [Inr (if count' < 0 then Endless else Times (nat count'))]
   \<and> parse_stages self (built (test_fn hpu self count' drop_remainder)) serialized =
       [case parse_x self serialized of
          Inl e \<Rightarrow> Inl e
        | Inr (x, mean, stdev) \<Rightarrow> Inr (Unlabelled x mean stdev)]
   \<and> (serialized ''X'' = Some (BytesList [xb]) \<and> length xb = prod_list (p_xshape self)
       \<and> serialized ''Y'' = Some (BytesList [yb])
       \<and> serialized ''mean'' = Some (FloatList m) \<and> length m = 4
       \<and> serialized ''stdev'' = Some (FloatList s) \<and> length s = 4
      \<longrightarrow> parse_stages self (built (test_fn hpu self count' drop_remainder)) serialized =
            [Inr (Unlabelled \<lparr> shape = p_xshape self, data = xb \<rparr>
                             \<lparr> shape = [4], data = m \<rparr> \<lparr> shape = [4], data = s \<rparr>)])
   \<and> (serialized ''X'' = Some (BytesList [xb]) \<and> serialized ''Y'' = None
      \<longrightarrow> (\<exists>e. parse_stages self (built (test_fn hpu self count' drop_remainder)) serialized
                 = [Inl e]))
   \<and> transform_chain (built (test_fn hpu self count' drop_remainder)) =
     [CenterCrop (224, 224, 155), Cast Float32, NormalizeImages, PadXYZ (Some (224, 224, 160))]"
proof (intro conjI impI)
  show "repetitions (built (test_fn hpu self count' drop_remainder))
       = [Inr (if count' < 0 then Endless else Times (nat count'))]"
    by (simp only: test_repetitions [OF assms(1)] repeat_op_int64 [OF assms(2,3)])
next
  assume "serialized ''X'' = Some (BytesList [xb]) \<and> length xb = prod_list (p_xshape self)
       \<and> serialized ''Y'' = Some (BytesList [yb])
       \<and> serialized ''mean'' = Some (FloatList m) \<and> length m = 4
       \<and> serialized ''stdev'' = Some (FloatList s) \<and> length s = 4"
  then have "parse_x self serialized =
     Inr (\<lparr> shape = p_xshape self, data = xb \<rparr>,
          \<lparr> shape = [4], data = m \<rparr>, \<lparr> shape = [4], data = s \<rparr>)"
    by (intro parse_x_fields [of serialized xb self yb]) simp_all
  then show "parse_stages self (built (test_fn hpu self count' drop_remainder)) serialized =
            [Inr (Unlabelled \<lparr> shape = p_xshape self, data = xb \<rparr>
                             \<lparr> shape = [4], data = m \<rparr> \<lparr> shape = [4], data = s \<rparr>)]"
    by (simp add: test_parse_stages [OF assms(1)])
next
  assume "serialized ''X'' = Some (BytesList [xb]) \<and> serialized ''Y'' = None"
  then have "parse_x self serialized = Inl (InvalidArgumentError (Feature_missing ''Y''))"
    by (intro parse_x_needs_Y [of serialized xb]) simp_all
  then show "\<exists>e. parse_stages self (built (test_fn hpu self count' drop_remainder)) serialized
                 = [Inl e]"
    by (simp add: test_parse_stages [OF assms(1)])
qed (rule test_fn_returned [OF assms(1)] test_parse_stages [OF assms(1)] test_chain [OF assms(1)])+

text \<open>
  The instance of C7 at the sample dataset, five repetitions, remainder dropped, with the
  record whose \<open>Y\<close> holds three bytes and the record without \<open>Y\<close>.
\<close>

theorem test_fn_pipeline_witness:
  "p_eval sample_dataset \<noteq> [] \<and> - (2 ^ 63) \<le> (5::int) \<and> (5::int) < 2 ^ 63
   \<and> test_fn [] sample_dataset 5 True = Returned
       [TFRecordDataset [''/data/a'', ''/data/b''],
        Repeat (Some 5),
        Map_op Parse_x AUTOTUNE,
        Map_op (Apply_test_transforms
          [Some (CenterCrop (224, 224, 155)),
           Some (Cast Float32),
           Some NormalizeImages,
           Some (PadXYZ (Some (224, 224, 160)))]) AUTOTUNE,
        Batch 2 True,
        Prefetch AUTOTUNE]
   \<and> repetitions (built (test_fn [] sample_dataset 5 True)) = [Inr (Times 5)]
   \<and> short_label_record ''X'' = Some (BytesList [replicate 35712000 0])
   \<and> length (replicate 35712000 (0::8 word)) = prod_list (p_xshape sample_dataset)
   \<and> short_label_record ''Y'' = Some (BytesList [replicate 3 1])
   \<and> parse_stages sample_dataset (built (test_fn [] sample_dataset 5 True)) short_label_record =
       [Inr (Unlabelled \<lparr> shape = [240, 240, 155, 4], data = replicate 35712000 0 \<rparr>
                        \<lparr> shape = [4], data = [1, 2, 3, 4] \<rparr>
                        \<lparr> shape = [4], data = [5, 6, 7, 8] \<rparr>)]
   \<and> no_label_record ''X'' = Some (BytesList [replicate 35712000 0])
   \<and> no_label_record ''Y'' = None
   \<and> (\<exists>e. parse_stages sample_dataset (built (test_fn [] sample_dataset 5 True)) no_label_record
            = [Inl e])
   \<and> transform_chain (built (test_fn [] sample_dataset 5 True)) =
       [CenterCrop (224, 224, 155), Cast Float32, NormalizeImages,
        PadXYZ (Some (224, 224, 160))]"
proof -
  have e: "p_eval sample_dataset \<noteq> []" by (simp add: sample_dataset_fields)
  have lo: "- (2 ^ 63) \<le> (5::int)" and hi: "(5::int) < 2 ^ 63" by simp_all
  have lx: "length (replicate 35712000 (0::8 word)) = prod_list (p_xshape sample_dataset)"
    by (simp add: sample_dataset_fields)
  have l4: "length [1, 2, 3, 4 :: int] = 4" "length [5, 6, 7, 8 :: int] = 4" by simp_all
  note r = test_fn_pipeline [OF e lo hi, where hpu = "[]" and drop_remainder = True
      and serialized = short_label_record and xb = "replicate 35712000 0"
      and yb = "replicate 3 1" and m = "[1, 2, 3, 4]" and s = "[5, 6, 7, 8]"]
  note n = test_fn_pipeline [OF e lo hi, where hpu = "[]" and drop_remainder = True
      and serialized = no_label_record and xb = "replicate 35712000 0"
      and yb = "replicate 3 1" and m = "[1, 2, 3, 4]" and s = "[5, 6, 7, 8]"]
  have a: "test_fn [] sample_dataset 5 True = Returned
       [TFRecordDataset [''/data/a'', ''/data/b''],
        Repeat (Some 5),
        Map_op Parse_x AUTOTUNE,
        Map_op (Apply_test_transforms
          [Some (CenterCrop (224, 224, 155)),
           Some (Cast Float32),
           Some NormalizeImages,
           Some (PadXYZ (Some (224, 224, 160)))]) AUTOTUNE,
        Batch 2 True,
        Prefetch AUTOTUNE]"
    using r [THEN conjunct1] by (simp add: sample_dataset_fields)
  have b: "repetitions (built (test_fn [] sample_dataset 5 True)) = [Inr (Times 5)]"
    using r [THEN conjunct2, THEN conjunct1] by simp
  have "parse_stages sample_dataset (built (test_fn [] sample_dataset 5 True)) short_label_record =
       [Inr (Unlabelled \<lparr> shape = p_xshape sample_dataset, data = replicate 35712000 0 \<rparr>
                        \<lparr> shape = [4], data = [1, 2, 3, 4] \<rparr>
                        \<lparr> shape = [4], data = [5, 6, 7, 8] \<rparr>)]"
    using r [THEN conjunct2, THEN conjunct2, THEN conjunct2, THEN conjunct1]
      short_label_record_fields lx l4 by blast
  then have c: "parse_stages sample_dataset (built (test_fn [] sample_dataset 5 True))
      short_label_record =
       [Inr (Unlabelled \<lparr> shape = [240, 240, 155, 4], data = replicate 35712000 0 \<rparr>
                        \<lparr> shape = [4], data = [1, 2, 3, 4] \<rparr>
                        \<lparr> shape = [4], data = [5, 6, 7, 8] \<rparr>)]"
    by (simp only: sample_dataset_fields)
  have d: "\<exists>e. parse_stages sample_dataset (built (test_fn [] sample_dataset 5 True))
      no_label_record = [Inl e]"
    using n [THEN conjunct2, THEN conjunct2, THEN conjunct2, THEN conjunct2, THEN conjunct1]
      no_label_record_fields by blast
  have t: "transform_chain (built (test_fn [] sample_dataset 5 True)) =
       [CenterCrop (224, 224, 155), Cast Float32, NormalizeImages,
        PadXYZ (Some (224, 224, 160))]"
    using r by blast
  show ?thesis
    using e lo hi a b short_label_record_fields(1,2) lx c no_label_record_fields d t
    by blast
qed

text \<open>
  Claim C7 as stated says that for every \<open>count\<close> the held-out set is repeated \<open>count\<close>
  times.  At the sample dataset, with \<open>count = -1\<close> the \<open>repeat\<close> stage repeats endlessly,
  and with \<open>count = 2\<^sup>6\<^sup>3\<close> it raises \<open>ValueError\<close>.
\<close>

theorem test_fn_pipeline_counterexample:
  "repetitions (built (test_fn [] sample_dataset (- 1) False)) = [Inr Endless]
   \<and> repetitions (built (test_fn [] sample_dataset (2 ^ 63) False))
       = [Inl (ValueError Out_of_int64)]"
proof -
  have e: "p_eval sample_dataset \<noteq> []" by (simp add: sample_dataset_fields)
  show ?thesis
    by (simp add: test_repetitions [OF e] repeat_op_def)
qed

end
